theory Spec2Isabelle
  imports Complex_Main "HOL-Library.AList" "HOL-Library.Multiset"
begin


section \<open>Values, columns and frames\<close>

text \<open>
  The program is a pipeline over pandas data frames. A float64 cell is a real number or
  NaN; NaN is \<open>None\<close>. Arithmetic is exact: rounding of binary floating point and the
  infinities are not modelled. A column has one of the three dtypes the program meets:
  float64, int64 and object (text cells, where a missing cell is NaN).

  The functions that compute tables are modelled: \<open>get_subject_columns\<close>, \<open>clean_data\<close>,
  \<open>student_metrics\<close>, \<open>subject_metrics\<close>, \<open>assign_grade\<close>, \<open>student_consistency\<close> and
  \<open>get_top_bottom_students\<close>. Reading the file, the plots, the printed insights and the
  export are input and output and are not modelled. Where the result of a library call is
  not fixed by the code (the reading of a text cell as a number, the sorting kernel, the
  skewness at zero variance), it is a parameter of the function that makes the call.
\<close>

datatype column =
    Float64 "real option list"
  | Int64 "int list"
  | Object "string option list"

datatype error =
    KeyError string
  | TypeError
  | ValueError
  | IntCastingNaNError

text \<open>
  A frame has a row count (its index) and named columns in column order. In a frame that
  pandas builds the column names are distinct and every column has one cell per row.
\<close>

record frame =
  nrows :: nat
  data :: "(string \<times> column) list"

definition columns :: "frame \<Rightarrow> string list" where
  "columns df = map fst (data df)"

fun col_len :: "column \<Rightarrow> nat" where
  "col_len (Float64 xs) = length xs"
| "col_len (Int64 ns) = length ns"
| "col_len (Object ss) = length ss"

definition wf_frame :: "frame \<Rightarrow> bool" where
  "wf_frame df =
     (distinct (columns df) \<and> list_all (\<lambda>p. col_len (snd p) = nrows df) (data df))"

text \<open>\<open>df[c]\<close> raises KeyError for a name that is not a column.\<close>

definition getitem :: "frame \<Rightarrow> string \<Rightarrow> error + column" where
  "getitem df c =
     (case map_of (data df) c of None \<Rightarrow> Inl (KeyError c) | Some col \<Rightarrow> Inr col)"

text \<open>\<open>df[c] = col\<close> replaces the column in place, or appends a new last column.\<close>

definition setitem :: "frame \<Rightarrow> string \<Rightarrow> column \<Rightarrow> frame" where
  "setitem df c col = df\<lparr>data := AList.update c col (data df)\<rparr>"

subsection \<open>The store\<close>

text \<open>
  Frames are mutable objects and the functions of the program receive references to
  them. The store holds the frames allocated so far; a reference is a position in it.
  \<open>df.copy()\<close> allocates a new frame with the same content (a deep copy of the data).
\<close>

type_synonym ref = nat
type_synonym store = "frame list"

definition copy :: "ref \<Rightarrow> store \<Rightarrow> ref \<times> store" where
  "copy r st = (length st, st @ [st ! r])"

definition store_setitem :: "ref \<Rightarrow> string \<Rightarrow> column \<Rightarrow> store \<Rightarrow> store" where
  "store_setitem r c col st = st[r := setitem (st ! r) c col]"

text \<open>
  The statement \<open>df[c] = f(df[c])\<close>: the read may raise KeyError and \<open>f\<close> may raise;
  nothing is written then.
\<close>

definition update_column ::
  "ref \<Rightarrow> string \<Rightarrow> (column \<Rightarrow> error + column) \<Rightarrow> store \<Rightarrow> error option \<times> store" where
  "update_column df c f st =
     (case getitem (st ! df) c of
        Inl e \<Rightarrow> (Some e, st)
      | Inr col \<Rightarrow>
          (case f col of
             Inl e \<Rightarrow> (Some e, st)
           | Inr col' \<Rightarrow> (None, store_setitem df c col' st)))"

text \<open>A \<open>for\<close> loop whose body may raise: the first exception leaves the loop.\<close>

fun for_each ::
  "('a \<Rightarrow> store \<Rightarrow> error option \<times> store) \<Rightarrow> 'a list \<Rightarrow> store \<Rightarrow> error option \<times> store" where
  "for_each body [] st = (None, st)"
| "for_each body (x # xs) st =
     (case body x st of
        (Some e, st') \<Rightarrow> (Some e, st')
      | (None, st') \<Rightarrow> for_each body xs st')"

subsection \<open>Floats and reductions\<close>

text \<open>Comparison of a float with a number, as Python evaluates it: false on NaN.\<close>

definition float_ge :: "real option \<Rightarrow> real \<Rightarrow> bool" where
  "float_ge a b = (case a of None \<Rightarrow> False | Some x \<Rightarrow> b \<le> x)"

text \<open>The cells that are not NaN, in order.\<close>

definition valid :: "real option list \<Rightarrow> real list" where
  "valid xs = [v. Some v \<leftarrow> xs]"

text \<open>\<open>mean()\<close> skips NaN; the mean of no value is NaN.\<close>

definition nanmean :: "real option list \<Rightarrow> real option" where
  "nanmean xs =
     (if valid xs = [] then None else Some (sum_list (valid xs) / real (length (valid xs))))"

text \<open>The cells of a numeric column as floats; a reduction of an object column raises.\<close>

fun floats :: "column \<Rightarrow> error + real option list" where
  "floats (Float64 xs) = Inr xs"
| "floats (Int64 ns) = Inr (map (\<lambda>n. Some (real_of_int n)) ns)"
| "floats (Object ss) = Inl TypeError"

section \<open>Identifying the subject columns\<close>

definition non_subjects :: "string list" where
  "non_subjects = [''StudentID'', ''Name'', ''Class'', ''Section'']"

definition get_subject_columns :: "frame \<Rightarrow> string list" where
  "get_subject_columns df = [c \<leftarrow> columns df. c \<notin> set non_subjects]"

section \<open>Data cleaning\<close>

text \<open>
  \<open>str.strip()\<close> removes leading and trailing whitespace. Strings are byte strings here,
  so whitespace is the ASCII whitespace of Python.
\<close>

definition isspace :: "char \<Rightarrow> bool" where
  "isspace c =
     (c \<in> set [CHR '' '', CHR 0x09, CHR 0x0A, CHR 0x0B, CHR 0x0C, CHR 0x0D,
               CHR 0x1C, CHR 0x1D, CHR 0x1E, CHR 0x1F])"

definition strip :: "string \<Rightarrow> string" where
  "strip s = rev (dropWhile isspace (rev (dropWhile isspace s)))"

text \<open>\<open>astype(str)\<close> on a cell of an object column: a missing cell becomes the text nan.\<close>

definition astype_str :: "string option \<Rightarrow> string" where
  "astype_str x = (case x of None \<Rightarrow> ''nan'' | Some s \<Rightarrow> s)"

text \<open>
  \<open>df[col].astype(str).str.strip()\<close>. The loop of \<open>clean_data\<close> applies it to object
  columns only; the text of a number is not modelled and a numeric column is left as it is.
\<close>

fun str_strip :: "column \<Rightarrow> column" where
  "str_strip (Object ss) = Object (map (\<lambda>x. Some (strip (astype_str x))) ss)"
| "str_strip col = col"

text \<open>\<open>df.select_dtypes(include='object').columns\<close>\<close>

fun is_object :: "column \<Rightarrow> bool" where
  "is_object (Object ss) = True"
| "is_object col = False"

definition object_columns :: "frame \<Rightarrow> string list" where
  "object_columns df = map fst (filter (\<lambda>p. is_object (snd p)) (data df))"

text \<open>
  \<open>pd.to_numeric(col, errors='coerce')\<close>. How the library reads a number from a text
  is the parameter \<open>parse\<close>: \<open>None\<close> for a text that is no number, which coercion turns
  into NaN. A numeric column is returned as it is.
\<close>

fun to_numeric :: "(string \<Rightarrow> real option) \<Rightarrow> column \<Rightarrow> column" where
  "to_numeric parse (Object ss) = Float64 (map (\<lambda>x. Option.bind x parse) ss)"
| "to_numeric parse col = col"

text \<open>
  \<open>col.fillna(v)\<close> on a numeric column. Filling with NaN changes nothing, and an int64
  column has no missing cell.
\<close>

fun fillna :: "column \<Rightarrow> real option \<Rightarrow> column" where
  "fillna (Float64 xs) (Some m) =
     Float64 (map (\<lambda>x. case x of None \<Rightarrow> Some m | Some v \<Rightarrow> Some v) xs)"
| "fillna col v = col"

text \<open>\<open>df[s].fillna(df[s].mean())\<close>\<close>

definition fillna_mean :: "column \<Rightarrow> error + column" where
  "fillna_mean col =
     (case floats col of Inl e \<Rightarrow> Inl e | Inr xs \<Rightarrow> Inr (fillna col (nanmean xs)))"

definition clean_subject ::
  "(string \<Rightarrow> real option) \<Rightarrow> ref \<Rightarrow> string \<Rightarrow> store \<Rightarrow> error option \<times> store" where
  "clean_subject parse df s st =
     (case update_column df s (\<lambda>col. Inr (to_numeric parse col)) st of
        (Some e, st') \<Rightarrow> (Some e, st')
      | (None, st') \<Rightarrow> update_column df s fillna_mean st')"

definition clean_data ::
  "(string \<Rightarrow> real option) \<Rightarrow> ref \<Rightarrow> string list \<Rightarrow> store \<Rightarrow> (error + ref) \<times> store" where
  "clean_data parse df0 subjects st0 =
     (case copy df0 st0 of
        (df, st1) \<Rightarrow>
          (case for_each (\<lambda>col. update_column df col (\<lambda>c. Inr (str_strip c)))
                  (object_columns (st1 ! df)) st1 of
             (Some e, st2) \<Rightarrow> (Inl e, st2)
           | (None, st2) \<Rightarrow>
               (case for_each (clean_subject parse df) subjects st2 of
                  (Some e, st3) \<Rightarrow> (Inl e, st3)
                | (None, st3) \<Rightarrow> (Inr df, st3))))"

section \<open>Grade assignment\<close>

definition assign_grade :: "real option \<Rightarrow> string" where
  "assign_grade avg =
     (if float_ge avg 90 then ''A''
      else if float_ge avg 75 then ''B''
      else if float_ge avg 60 then ''C''
      else ''D'')"

text \<open>The order of the grade bands, best last: D, C, B, A.\<close>

definition grade_band :: "string \<Rightarrow> nat" where
  "grade_band g =
     (if g = ''A'' then 3 else if g = ''B'' then 2 else if g = ''C'' then 1 else 0)"

subsection \<open>What cleaning computes\<close>

text \<open>
  The loops of \<open>clean_data\<close> write one column at a time into the copy. The functions
  below describe the frame they leave: \<open>map_col\<close> rewrites one column of a frame,
  \<open>clean_col\<close> is what the two assignments of the subject loop do to a column, and
  \<open>cleaned\<close> is the frame after both loops.
\<close>

definition map_col :: "string \<Rightarrow> (column \<Rightarrow> column) \<Rightarrow> frame \<Rightarrow> frame" where
  "map_col c h f = (case map_of (data f) c of None \<Rightarrow> f | Some col \<Rightarrow> setitem f c (h col))"

definition clean_col :: "(string \<Rightarrow> real option) \<Rightarrow> column \<Rightarrow> column" where
  "clean_col parse col =
     (case floats (to_numeric parse col) of
        Inl e \<Rightarrow> to_numeric parse col
      | Inr xs \<Rightarrow> fillna (to_numeric parse col) (nanmean xs))"

definition cleaned :: "(string \<Rightarrow> real option) \<Rightarrow> string list \<Rightarrow> frame \<Rightarrow> frame" where
  "cleaned parse subjects f =
     fold (\<lambda>s. map_col s (clean_col parse)) subjects
       (fold (\<lambda>c. map_col c str_strip) (object_columns f) f)"

text \<open>
  The specification's view of a raw subject column: \<open>coerce\<close> gives for each cell of
  the raw column its number, or NaN where the cell is no number (an object cell is
  read after trimming); \<open>impute\<close> replaces each NaN by the mean of the cells that are
  numbers. The mean of no cell is NaN, so a column without any number stays NaN.
\<close>

definition coerce :: "(string \<Rightarrow> real option) \<Rightarrow> column \<Rightarrow> real option list" where
  "coerce parse col =
     (case col of
        Object ss \<Rightarrow> map (\<lambda>x. parse (strip (astype_str x))) ss
      | Float64 xs \<Rightarrow> xs
      | Int64 ns \<Rightarrow> map (\<lambda>n. Some (real_of_int n)) ns)"

definition impute :: "real option list \<Rightarrow> real option list" where
  "impute xs = map (\<lambda>x. case x of None \<Rightarrow> nanmean xs | Some v \<Rightarrow> Some v) xs"

subsection \<open>A reading of decimal numerals\<close>

text \<open>
  The theorems hold for every reading \<open>parse\<close>. The concrete tables below are read
  with \<open>parse_decimal\<close>: an optional sign, digits, and an optional fraction after a
  point. Every other text is no number.
\<close>

definition digit :: "char \<Rightarrow> nat option" where
  "digit c =
     (let n = (of_char c :: nat) in if 48 \<le> n \<and> n \<le> 57 then Some (n - 48) else None)"

fun digits_value :: "string \<Rightarrow> nat \<Rightarrow> nat option" where
  "digits_value [] acc = Some acc"
| "digits_value (c # cs) acc =
     (case digit c of None \<Rightarrow> None | Some d \<Rightarrow> digits_value cs (10 * acc + d))"

definition parse_unsigned :: "string \<Rightarrow> real option" where
  "parse_unsigned s =
     (let ip = takeWhile (\<lambda>c. c \<noteq> CHR ''.'') s;
          fp = drop 1 (dropWhile (\<lambda>c. c \<noteq> CHR ''.'') s)
      in if ip = [] \<and> fp = [] then None
         else (case (digits_value ip 0, digits_value fp 0) of
                 (Some a, Some b) \<Rightarrow> Some (real a + real b / 10 ^ length fp)
               | _ \<Rightarrow> None))"

definition parse_decimal :: "string \<Rightarrow> real option" where
  "parse_decimal s =
     (case s of
        [] \<Rightarrow> None
      | c # r \<Rightarrow>
          if c = CHR ''-'' then map_option uminus (parse_unsigned r)
          else if c = CHR ''+'' then parse_unsigned r
          else parse_unsigned s)"

text \<open>
  The table of the specification's example: three students, the Math mark of the third
  is the text bad, so pandas reads Math as an object column and Sci as numbers.
\<close>

definition example_raw :: frame where
  "example_raw =
     \<lparr>nrows = 3,
      data = [(''StudentID'', Int64 [1, 2, 3]),
              (''Math'', Object [Some ''90'', Some ''60'', Some ''bad'']),
              (''Sci'', Int64 [80, 40, 100])]\<rparr>"

section \<open>Student metrics\<close>

text \<open>
  \<open>df[subjects]\<close> with a list of names: the listed columns in the order of the list;
  KeyError when a name is not a column.
\<close>

fun select :: "frame \<Rightarrow> string list \<Rightarrow> error + column list" where
  "select df [] = Inr []"
| "select df (c # cs) =
     (case getitem df c of
        Inl e \<Rightarrow> Inl e
      | Inr col \<Rightarrow> (case select df cs of Inl e \<Rightarrow> Inl e | Inr cols \<Rightarrow> Inr (col # cols)))"

fun numeric_block :: "column list \<Rightarrow> error + real option list list" where
  "numeric_block [] = Inr []"
| "numeric_block (col # cols) =
     (case floats col of
        Inl e \<Rightarrow> Inl e
      | Inr xs \<Rightarrow> (case numeric_block cols of Inl e \<Rightarrow> Inl e | Inr b \<Rightarrow> Inr (xs # b)))"

text \<open>The rows of a block of columns: row \<open>i\<close> holds cell \<open>i\<close> of every column.\<close>

definition row_cells :: "nat \<Rightarrow> 'a list list \<Rightarrow> 'a list list" where
  "row_cells n block = map (\<lambda>i. map (\<lambda>c. c ! i) block) [0..<n]"

text \<open>\<open>sum(axis=1)\<close> skips NaN; the sum of no value is 0.\<close>

definition nansum :: "real option list \<Rightarrow> real" where
  "nansum xs = sum_list (valid xs)"

text \<open>A reduction of \<open>df[subjects]\<close> along the rows (\<open>axis=1\<close>): one float per row.\<close>

definition row_reduce ::
  "(real option list \<Rightarrow> real option) \<Rightarrow> frame \<Rightarrow> string list \<Rightarrow> error + column" where
  "row_reduce f df subjects =
     (case select df subjects of
        Inl e \<Rightarrow> Inl e
      | Inr cols \<Rightarrow>
          (case numeric_block cols of
             Inl e \<Rightarrow> Inl e
           | Inr block \<Rightarrow> Inr (Float64 (map f (row_cells (nrows df) block)))))"

text \<open>The statement \<open>df[t] = df[subjects].f(axis=1)\<close>.\<close>

definition assign_rowwise ::
  "ref \<Rightarrow> string \<Rightarrow> (real option list \<Rightarrow> real option) \<Rightarrow> string list \<Rightarrow> store
     \<Rightarrow> error option \<times> store" where
  "assign_rowwise df t f subjects st =
     (case row_reduce f (st ! df) subjects of
        Inl e \<Rightarrow> (Some e, st)
      | Inr col \<Rightarrow> (None, store_setitem df t col st))"

text \<open>The statement \<open>df[t] = f(df[s])\<close>.\<close>

definition assign_column ::
  "ref \<Rightarrow> string \<Rightarrow> string \<Rightarrow> (column \<Rightarrow> error + column) \<Rightarrow> store \<Rightarrow> error option \<times> store" where
  "assign_column df t s f st =
     (case getitem (st ! df) s of
        Inl e \<Rightarrow> (Some e, st)
      | Inr col \<Rightarrow>
          (case f col of
             Inl e \<Rightarrow> (Some e, st)
           | Inr col' \<Rightarrow> (None, store_setitem df t col' st)))"

text \<open>
  \<open>rank(method='min', ascending=False)\<close>: the rank of a value is one more than the
  number of values of the column that are greater; NaN keeps NaN and is not counted.
\<close>

definition rank_min_desc :: "real option list \<Rightarrow> real option list" where
  "rank_min_desc xs =
     map (\<lambda>x. case x of
                None \<Rightarrow> None
              | Some v \<Rightarrow> Some (1 + real (length (filter (\<lambda>w. v < w) (valid xs))))) xs"

text \<open>\<open>astype(int)\<close> raises on NaN and truncates a float towards zero.\<close>

definition trunc :: "real \<Rightarrow> int" where
  "trunc v = (if 0 \<le> v then \<lfloor>v\<rfloor> else \<lceil>v\<rceil>)"

definition astype_int :: "real option list \<Rightarrow> error + int list" where
  "astype_int xs =
     (if None \<in> set xs then Inl IntCastingNaNError else Inr (map trunc (valid xs)))"

text \<open>
  \<open>col.rank(method='min', ascending=False).astype(int)\<close>, for the numeric column that
  \<open>student_metrics\<close> applies it to.
\<close>

definition rank_column :: "column \<Rightarrow> error + column" where
  "rank_column col =
     (case floats col of
        Inl e \<Rightarrow> Inl e
      | Inr xs \<Rightarrow>
          (case astype_int (rank_min_desc xs) of Inl e \<Rightarrow> Inl e | Inr rs \<Rightarrow> Inr (Int64 rs)))"

definition student_metrics :: "ref \<Rightarrow> string list \<Rightarrow> store \<Rightarrow> (error + ref) \<times> store" where
  "student_metrics df0 subjects st0 =
     (case copy df0 st0 of
        (df, st1) \<Rightarrow>
          (case assign_rowwise df ''Total'' (\<lambda>r. Some (nansum r)) subjects st1 of
             (Some e, st2) \<Rightarrow> (Inl e, st2)
           | (None, st2) \<Rightarrow>
               (case assign_rowwise df ''Average'' nanmean subjects st2 of
                  (Some e, st3) \<Rightarrow> (Inl e, st3)
                | (None, st3) \<Rightarrow>
                    (case assign_column df ''Rank'' ''Total'' rank_column st3 of
                       (Some e, st4) \<Rightarrow> (Inl e, st4)
                     | (None, st4) \<Rightarrow> (Inr df, st4)))))"

subsection \<open>What the student metrics compute\<close>

text \<open>
  A table is clean for a list of subjects when every subject is a column of numbers.
  \<open>subject_rows\<close> are the marks of each student then: one list per row, one mark per
  subject, in the order of the subject list.
\<close>

definition numeric_subjects :: "frame \<Rightarrow> string list \<Rightarrow> bool" where
  "numeric_subjects df subjects =
     list_all (\<lambda>s. case getitem df s of Inl e \<Rightarrow> False | Inr col \<Rightarrow> \<not> is_object col) subjects"

definition subject_block :: "frame \<Rightarrow> string list \<Rightarrow> real option list list" where
  "subject_block df subjects =
     map (\<lambda>s. case getitem df s of
                Inl e \<Rightarrow> []
              | Inr col \<Rightarrow> (case floats col of Inl e \<Rightarrow> [] | Inr xs \<Rightarrow> xs)) subjects"

definition subject_rows :: "frame \<Rightarrow> string list \<Rightarrow> real option list list" where
  "subject_rows df subjects = row_cells (nrows df) (subject_block df subjects)"

text \<open>Counting the values of a list above a value, and equal to it.\<close>

definition greater_count :: "real list \<Rightarrow> real \<Rightarrow> nat" where
  "greater_count ts x = length (filter (\<lambda>w. x < w) ts)"

definition tie_size :: "real list \<Rightarrow> real \<Rightarrow> nat" where
  "tie_size ts x = length (filter (\<lambda>w. w = x) ts)"

text \<open>The frame that \<open>student_metrics\<close> leaves in its copy of a clean table.\<close>

definition totals_of :: "frame \<Rightarrow> string list \<Rightarrow> real list" where
  "totals_of df subjects = map nansum (subject_rows df subjects)"

definition ranks_of :: "real list \<Rightarrow> int list" where
  "ranks_of ts = map (\<lambda>v. 1 + int (greater_count ts v)) ts"

definition with_metrics :: "frame \<Rightarrow> string list \<Rightarrow> frame" where
  "with_metrics df subjects =
     (let f2 = setitem df ''Total'' (Float64 (map Some (totals_of df subjects)));
          f3 = setitem f2 ''Average'' (Float64 (map nanmean (subject_rows f2 subjects)))
      in setitem f3 ''Rank'' (Int64 (ranks_of (totals_of df subjects))))"

text \<open>The clean table of the specification's example.\<close>

definition example_clean :: frame where
  "example_clean =
     \<lparr>nrows = 3,
      data = [(''StudentID'', Int64 [1, 2, 3]),
              (''Math'', Float64 [Some 90, Some 60, Some 75]),
              (''Sci'', Int64 [80, 40, 100])]\<rparr>"

section \<open>Consistency\<close>

text \<open>
  \<open>std(ddof=d)\<close> skips NaN: with \<open>cnt\<close> values left it is NaN when \<open>cnt \<le> d\<close>, and
  otherwise the square root of the sum of the squared deviations from the mean, divided by
  \<open>cnt - d\<close>. Without an argument \<open>d\<close> is 1.
\<close>

definition sq_dev :: "real list \<Rightarrow> real" where
  "sq_dev vs = (\<Sum>v \<leftarrow> vs. (v - sum_list vs / real (length vs)) ^ 2)"

definition nanstd :: "nat \<Rightarrow> real option list \<Rightarrow> real option" where
  "nanstd ddof xs =
     (let vs = valid xs; cnt = length vs
      in if cnt \<le> ddof then None else Some (sqrt (sq_dev vs / real (cnt - ddof))))"

text \<open>
  The standard deviation as the specification defines it, with the divisor equal to the
  number of values, and the sample standard deviation, with one less.
\<close>

definition population_std :: "real list \<Rightarrow> real" where
  "population_std vs = sqrt (sq_dev vs / real (length vs))"

definition sample_std :: "real list \<Rightarrow> real" where
  "sample_std vs = sqrt (sq_dev vs / (real (length vs) - 1))"

text \<open>\<open>student_consistency\<close> writes into the frame it is given and returns it.\<close>

definition student_consistency :: "ref \<Rightarrow> string list \<Rightarrow> store \<Rightarrow> (error + ref) \<times> store" where
  "student_consistency df subjects st =
     (case assign_rowwise df ''Consistency'' (nanstd 1) subjects st of
        (Some e, st') \<Rightarrow> (Inl e, st')
      | (None, st') \<Rightarrow> (Inr df, st'))"

section \<open>Subject metrics\<close>

record stats =
  Mean :: "real option"
  Std :: "real option"
  Min_stat :: "real option"
  Max_stat :: "real option"
  Skew :: "real option"

definition nanmin :: "real option list \<Rightarrow> real option" where
  "nanmin xs = (case valid xs of [] \<Rightarrow> None | v # vs \<Rightarrow> Some (fold min vs v))"

definition nanmax :: "real option list \<Rightarrow> real option" where
  "nanmax xs = (case valid xs of [] \<Rightarrow> None | v # vs \<Rightarrow> Some (fold max vs v))"

text \<open>
  \<open>skew()\<close> skips NaN. With the sums \<open>m2\<close> and \<open>m3\<close> of the squared and the cubed
  deviations from the mean of the \<open>count\<close> values left (\<open>cnt\<close> below), pandas computes
  \<open>(count * (count - 1) ** 0.5 / (count - 2)) * (m3 / m2 ** 1.5)\<close>, and gives NaN when
  fewer than three values are left. When \<open>m2\<close> is 0 the library returns a fixed value,
  which is 0 in pandas 2 and NaN in other releases; the code does not choose it, so it is
  the parameter \<open>zero_variance\<close>. pandas also sets \<open>m2\<close> and \<open>m3\<close> to 0 when
  they are below a rounding tolerance; with exact arithmetic there is no rounding and the
  tolerance is left out.
\<close>

definition cube_dev :: "real list \<Rightarrow> real" where
  "cube_dev vs = (\<Sum>v \<leftarrow> vs. (v - sum_list vs / real (length vs)) ^ 3)"

definition nanskew :: "real option \<Rightarrow> real option list \<Rightarrow> real option" where
  "nanskew zero_variance xs =
     (let vs = valid xs; cnt = length vs; m2 = sq_dev vs; m3 = cube_dev vs;
          result = (real cnt * sqrt (real cnt - 1) / (real cnt - 2)) * (m3 / m2 powr (3 / 2))
      in if cnt < 3 then None else if m2 = 0 then zero_variance else Some result)"

definition describe :: "real option \<Rightarrow> real option list \<Rightarrow> stats" where
  "describe zero_variance arr =
     \<lparr>Mean = nanmean arr, Std = nanstd 0 arr, Min_stat = nanmin arr, Max_stat = nanmax arr,
      Skew = nanskew zero_variance arr\<rparr>"

text \<open>
  The loop fills a dictionary keyed by the subject; the result has one row per key, in the
  order of first insertion.
\<close>

fun subject_metrics_loop ::
  "real option \<Rightarrow> frame \<Rightarrow> string list \<Rightarrow> (string \<times> stats) list
     \<Rightarrow> error + (string \<times> stats) list" where
  "subject_metrics_loop zero_variance df [] acc = Inr acc"
| "subject_metrics_loop zero_variance df (s # ss) acc =
     (case getitem df s of
        Inl e \<Rightarrow> Inl e
      | Inr arr \<Rightarrow>
          (case floats arr of
             Inl e \<Rightarrow> Inl e
           | Inr xs \<Rightarrow>
               subject_metrics_loop zero_variance df ss
                 (AList.update s (describe zero_variance xs) acc)))"

definition subject_metrics ::
  "real option \<Rightarrow> ref \<Rightarrow> string list \<Rightarrow> store \<Rightarrow> error + (string \<times> stats) list" where
  "subject_metrics zero_variance df subjects st =
     subject_metrics_loop zero_variance (st ! df) subjects []"

subsection \<open>What the subject metrics compute\<close>

text \<open>The marks of a subject: the cells of its column as floats.\<close>

definition marks_of :: "frame \<Rightarrow> string \<Rightarrow> real option list" where
  "marks_of df s =
     (case getitem df s of
        Inl e \<Rightarrow> []
      | Inr col \<Rightarrow> (case floats col of Inl e \<Rightarrow> [] | Inr xs \<Rightarrow> xs))"

text \<open>
  The third standardized moment in the population convention of the specification:
  the mean of the cubed deviations, divided by the mean of the squared deviations to the
  power 3/2.
\<close>

definition third_standardized_moment :: "real list \<Rightarrow> real" where
  "third_standardized_moment vs =
     (cube_dev vs / real (length vs)) / (sq_dev vs / real (length vs)) powr (3 / 2)"

text \<open>
  Three small clean tables: one with a skewed subject, one where four students have the
  same mark, and one where two students have the same mark.
\<close>

definition skew_example :: frame where
  "skew_example = \<lparr>nrows = 5, data = [(''Math'', Int64 [47, 49, 51, 51, 52])]\<rparr>"

definition constant_example :: frame where
  "constant_example = \<lparr>nrows = 4, data = [(''Math'', Int64 [50, 50, 50, 50])]\<rparr>"

definition two_students_example :: frame where
  "two_students_example = \<lparr>nrows = 2, data = [(''Math'', Int64 [50, 50])]\<rparr>"

section \<open>Top and bottom students\<close>

text \<open>
  \<open>sort_values(by='Average')\<close> sorts with the default \<open>kind='quicksort'\<close>: pandas hands the
  values that are not NaN to the sorting kernel of numpy and places the rows with NaN last.
  Which kernel runs depends on the numpy build and the processor, and the library
  documents the kind as not stable. The kernel is the parameter \<open>argsort\<close>: it returns
  the positions of the values in ascending order of the values. For a descending sort
  pandas reverses the values, sorts, and reverses the result.
\<close>

definition isna :: "real option \<Rightarrow> bool" where
  "isna x = (x = None)"

definition nargsort :: "(real list \<Rightarrow> nat list) \<Rightarrow> bool \<Rightarrow> real option list \<Rightarrow> nat list" where
  "nargsort argsort ascending items =
     (let idx = [0..<length items];
          non_nan_idx = filter (\<lambda>i. \<not> isna (items ! i)) idx;
          nan_idx = filter (\<lambda>i. isna (items ! i)) idx;
          non_nans = valid items;
          non_nans' = (if ascending then non_nans else rev non_nans);
          non_nan_idx' = (if ascending then non_nan_idx else rev non_nan_idx);
          indexer = map (\<lambda>k. non_nan_idx' ! k) (argsort non_nans');
          indexer' = (if ascending then indexer else rev indexer)
      in indexer' @ nan_idx)"

text \<open>The rows of a frame at the given positions, in that order.\<close>

fun gather :: "column \<Rightarrow> nat list \<Rightarrow> column" where
  "gather (Float64 xs) idx = Float64 (map (\<lambda>i. xs ! i) idx)"
| "gather (Int64 ns) idx = Int64 (map (\<lambda>i. ns ! i) idx)"
| "gather (Object ss) idx = Object (map (\<lambda>i. ss ! i) idx)"

definition take_rows :: "frame \<Rightarrow> nat list \<Rightarrow> frame" where
  "take_rows df idx =
     \<lparr>nrows = length idx, data = map (\<lambda>p. (fst p, gather (snd p) idx)) (data df)\<rparr>"

text \<open>\<open>head(n)\<close>: the first \<open>n\<close> rows, and for a negative \<open>n\<close> all rows but the last \<open>-n\<close>.\<close>

definition head :: "int \<Rightarrow> 'a list \<Rightarrow> 'a list" where
  "head n xs = (if 0 \<le> n then take (nat n) xs else take (length xs - nat (- n)) xs)"

definition sort_values_head ::
  "(real list \<Rightarrow> nat list) \<Rightarrow> frame \<Rightarrow> string \<Rightarrow> bool \<Rightarrow> int \<Rightarrow> error + frame" where
  "sort_values_head argsort df key ascending n =
     (case getitem df key of
        Inl e \<Rightarrow> Inl e
      | Inr col \<Rightarrow>
          (case floats col of
             Inl e \<Rightarrow> Inl e
           | Inr items \<Rightarrow> Inr (take_rows df (head n (nargsort argsort ascending items)))))"

definition get_top_bottom_students ::
  "(real list \<Rightarrow> nat list) \<Rightarrow> ref \<Rightarrow> int \<Rightarrow> store \<Rightarrow> error + frame \<times> frame" where
  "get_top_bottom_students argsort df top_n st =
     (case sort_values_head argsort (st ! df) ''Average'' False top_n of
        Inl e \<Rightarrow> Inl e
      | Inr top_df \<Rightarrow>
          (case sort_values_head argsort (st ! df) ''Average'' True top_n of
             Inl e \<Rightarrow> Inl e
           | Inr bottom_df \<Rightarrow> Inr (top_df, bottom_df)))"

text \<open>
  The kernel \<open>insertion_argsort\<close> is the stable sort of the positions: among equal values
  the earlier position comes first.
\<close>

definition insertion_argsort :: "real list \<Rightarrow> nat list" where
  "insertion_argsort v = sort_key (\<lambda>i. v ! i) [0..<length v]"

subsection \<open>What the kernel promises, and the selection of the specification\<close>

text \<open>
  A kernel sorts a list of values when it returns every position once, in ascending order
  of the values. A sorting kernel does so for every list; this is all the quicksort kind
  promises.
\<close>

definition sorts_values :: "(real list \<Rightarrow> nat list) \<Rightarrow> real list \<Rightarrow> bool" where
  "sorts_values argsort v =
     (mset (argsort v) = mset [0..<length v] \<and> sorted (map (\<lambda>i. v ! i) (argsort v)))"

definition sorting_kernel :: "(real list \<Rightarrow> nat list) \<Rightarrow> bool" where
  "sorting_kernel argsort = (\<forall>v. sorts_values argsort v)"

text \<open>The order of the Averages in a selection: descending or ascending, NaN last.\<close>

fun desc_order :: "real option \<Rightarrow> real option \<Rightarrow> bool" where
  "desc_order (Some x) (Some y) = (y \<le> x)"
| "desc_order (Some x) None = True"
| "desc_order None (Some y) = False"
| "desc_order None None = True"

fun asc_order :: "real option \<Rightarrow> real option \<Rightarrow> bool" where
  "asc_order (Some x) (Some y) = (x \<le> y)"
| "asc_order (Some x) None = True"
| "asc_order None (Some y) = False"
| "asc_order None None = True"

text \<open>
  The order of the rows that the specification asks for: the stable sort of the positions
  by Average, descending or ascending, with the rows without an Average last. The library
  function \<open>sort_key\<close> is a stable sort.
\<close>

definition sort_key_of :: "bool \<Rightarrow> real option list \<Rightarrow> nat \<Rightarrow> real" where
  "sort_key_of ascending items i =
     (case items ! i of None \<Rightarrow> 0 | Some x \<Rightarrow> if ascending then x else - x)"

definition stable_order :: "bool \<Rightarrow> real option list \<Rightarrow> nat list" where
  "stable_order ascending items =
     sort_key (sort_key_of ascending items) (filter (\<lambda>i. \<not> isna (items ! i)) [0..<length items])
       @ filter (\<lambda>i. isna (items ! i)) [0..<length items]"

text \<open>
  A sorting kernel that is not stable: among equal values it returns the later position
  first.
\<close>

definition reversing_argsort :: "real list \<Rightarrow> nat list" where
  "reversing_argsort v = rev (sort_key (\<lambda>i. - (v ! i)) [0..<length v])"

text \<open>The students of the specification's example with their Averages.\<close>

definition averages_example :: frame where
  "averages_example =
     \<lparr>nrows = 3,
      data = [(''StudentID'', Int64 [1, 2, 3]),
              (''Average'', Float64 [Some 85, Some 50, Some (175 / 2)])]\<rparr>"

text \<open>
  A table of four students in which the two students with the highest Average have the
  same Average.
\<close>

definition tie_example :: frame where
  "tie_example =
     \<lparr>nrows = 4,
      data = [(''StudentID'', Int64 [1, 2, 3, 4]),
              (''Average'', Float64 [Some 80, Some 70, Some 90, Some 90])]\<rparr>"

section \<open>Tables for the cleaning stage\<close>

text \<open>A raw table in which no cell of the subject Math is a number.\<close>

definition bad_column_example :: frame where
  "bad_column_example =
     \<lparr>nrows = 2,
      data = [(''StudentID'', Int64 [1, 2]),
              (''Math'', Object [Some ''bad'', Some ''worse'']),
              (''Sci'', Int64 [80, 40])]\<rparr>"

section \<open>Properties of the grade assignment\<close>

text \<open>
  C3. For a numeric Average the grade is the step function with the bands
  [90, infinity) to A, [75, 90) to B, [60, 75) to C and everything below 60 to D, each
  lower bound inclusive; and for two Averages \<open>x \<le> y\<close> the band of \<open>x\<close> is never better
  than the band of \<open>y\<close>.
\<close>

theorem assign_grade_step:
  "(90 \<le> x \<longrightarrow> assign_grade (Some x) = ''A'') \<and>
   (75 \<le> x \<and> x < 90 \<longrightarrow> assign_grade (Some x) = ''B'') \<and>
   (60 \<le> x \<and> x < 75 \<longrightarrow> assign_grade (Some x) = ''C'') \<and>
   (x < 60 \<longrightarrow> assign_grade (Some x) = ''D'') \<and>
   (x \<le> y \<longrightarrow> grade_band (assign_grade (Some x)) \<le> grade_band (assign_grade (Some y)))"
  by (simp add: assign_grade_def float_ge_def grade_band_def)

theorem assign_grade_step_witness:
  "assign_grade (Some 90) = ''A'' \<and> assign_grade (Some 75) = ''B'' \<and>
   assign_grade (Some (175 / 2)) = ''B'' \<and>
   assign_grade (Some 60) = ''C'' \<and> assign_grade (Some (599 / 10)) = ''D'' \<and>
   grade_band (assign_grade (Some 74)) \<le> grade_band (assign_grade (Some 75))"
  using assign_grade_step [of 90 90] assign_grade_step [of 75 75]
    assign_grade_step [of "175 / 2" 90] assign_grade_step [of 60 60]
    assign_grade_step [of "599 / 10" 60] assign_grade_step [of 74 75]
  by (simp add: grade_band_def)

section \<open>Properties of cleaning\<close>

lemma for_each_frame:
  assumes "\<And>x st. x \<in> set xs \<Longrightarrow> df < length st \<Longrightarrow> P (st ! df) \<Longrightarrow>
             body x st = (None, st[df := g x (st ! df)]) \<and> P (g x (st ! df))"
    and "df < length st" and "P (st ! df)"
  shows "for_each body xs st = (None, st[df := fold g xs (st ! df)]) \<and> P (fold g xs (st ! df))"
  using assms
proof (induction xs arbitrary: st)
  case Nil
  then show ?case by simp
next
  case (Cons x xs)
  let ?st1 = "st[df := g x (st ! df)]"
  have b: "body x st = (None, ?st1)" and p: "P (g x (st ! df))"
    using Cons.prems(1) [of x st] Cons.prems(2,3) by simp_all
  have l: "df < length ?st1" using Cons.prems(2) by simp
  have n: "?st1 ! df = g x (st ! df)" using Cons.prems(2) by simp
  have "for_each body xs ?st1 = (None, ?st1[df := fold g xs (?st1 ! df)]) \<and> P (fold g xs (?st1 ! df))"
  proof (rule Cons.IH)
    fix y st' assume "y \<in> set xs" "df < length st'" "P (st' ! df)"
    then show "body y st' = (None, st'[df := g y (st' ! df)]) \<and> P (g y (st' ! df))"
      using Cons.prems(1) [of y st'] by simp
  next
    show "df < length ?st1" by (rule l)
    show "P (?st1 ! df)" using p n by simp
  qed
  then show ?case using b n by simp
qed

lemma columns_setitem_mem:
  "c \<in> set (columns f) \<Longrightarrow> columns (setitem f c col) = columns f"
  by (simp add: columns_def setitem_def update_keys)

lemma columns_map_col: "columns (map_col c h f) = columns f"
proof (cases "map_of (data f) c")
  case None
  then show ?thesis by (simp add: map_col_def)
next
  case (Some col)
  then have "c \<in> set (columns f)"
    by (metis columns_def map_of_eq_None_iff option.distinct(1) set_map)
  then show ?thesis using Some by (simp add: map_col_def columns_setitem_mem)
qed

lemma nrows_map_col: "nrows (map_col c h f) = nrows f"
  by (simp add: map_col_def setitem_def split: option.splits)

lemma map_of_map_col:
  "map_of (data (map_col c h f)) c' =
     (if c' = c then map_option h (map_of (data f) c) else map_of (data f) c')"
  by (simp add: map_col_def setitem_def update_conv' split: option.splits)

lemma map_of_fold_map_col:
  assumes "distinct cs \<or> (\<forall>x. h (h x) = h x)"
  shows "map_of (data (fold (\<lambda>c. map_col c h) cs f)) c' =
     (if c' \<in> set cs then map_option h (map_of (data f) c') else map_of (data f) c')"
  using assms
proof (induction cs arbitrary: f)
  case Nil
  then show ?case by simp
next
  case (Cons c cs)
  have d: "distinct cs \<or> (\<forall>x. h (h x) = h x)" using Cons.prems by auto
  show ?case
  proof (cases "c' = c")
    case False
    then show ?thesis using Cons.IH [OF d, of "map_col c h f"] by (simp add: map_of_map_col)
  next
    case True
    show ?thesis
    proof (cases "c \<in> set cs")
      case False
      then show ?thesis using True Cons.IH [OF d, of "map_col c h f"] by (simp add: map_of_map_col)
    next
      case in_cs: True
      then have "\<forall>x. h (h x) = h x" using Cons.prems by auto
      then show ?thesis using True in_cs Cons.IH [OF d, of "map_col c h f"]
        by (simp add: map_of_map_col option.map_comp comp_def)
    qed
  qed
qed

lemma columns_fold_map_col: "columns (fold (\<lambda>c. map_col c h) cs f) = columns f"
  by (induction cs arbitrary: f) (simp_all add: columns_map_col)

lemma update_column_pure:
  assumes "c \<in> set (columns (st ! df))"
  shows "update_column df c (\<lambda>col. Inr (h col)) st = (None, st[df := map_col c h (st ! df)])"
proof -
  obtain col where "map_of (data (st ! df)) c = Some col"
    using assms by (metis columns_def map_of_eq_None_iff not_Some_eq set_map)
  then show ?thesis
    by (simp add: update_column_def getitem_def store_setitem_def map_col_def)
qed

lemma floats_to_numeric: "\<exists>xs. floats (to_numeric parse col) = Inr xs"
  by (cases col) simp_all

lemma fillna_mean_to_numeric:
  "fillna_mean (to_numeric parse col) = Inr (clean_col parse col)"
  using floats_to_numeric [of parse col]
  by (auto simp: fillna_mean_def clean_col_def)

lemma setitem_setitem: "setitem (setitem f c a) c b = setitem f c b"
  by (simp add: setitem_def update_last)

lemma getitem_setitem: "getitem (setitem f c a) c = Inr a"
  by (simp add: getitem_def setitem_def update_conv')

lemma clean_subject_pure:
  assumes "s \<in> set (columns (st ! df))" and "df < length st"
  shows "clean_subject parse df s st = (None, st[df := map_col s (clean_col parse) (st ! df)])"
proof -
  obtain col where c: "map_of (data (st ! df)) s = Some col"
    using assms(1) by (metis columns_def map_of_eq_None_iff not_Some_eq set_map)
  let ?st1 = "st[df := setitem (st ! df) s (to_numeric parse col)]"
  have 1: "update_column df s (\<lambda>col. Inr (to_numeric parse col)) st = (None, ?st1)"
    using c by (simp add: update_column_def getitem_def store_setitem_def)
  have 2: "update_column df s fillna_mean ?st1 =
      (None, st[df := setitem (st ! df) s (clean_col parse col)])"
    using assms(2)
    by (simp add: update_column_def getitem_setitem fillna_mean_to_numeric
        store_setitem_def setitem_setitem)
  show ?thesis using 1 2 c by (simp add: clean_subject_def map_col_def)
qed

lemma valid_all_Some: "valid (map Some vs) = vs"
  by (induction vs) (simp_all add: valid_def)

lemma valid_Nil_iff: "valid xs = [] \<longleftrightarrow> (\<forall>x \<in> set xs. x = None)"
  by (induction xs) (auto simp: valid_def split: option.splits)

lemma impute_no_valid:
  assumes "nanmean xs = None"
  shows "impute xs = xs"
proof -
  have "\<forall>x \<in> set xs. x = None"
    using assms by (simp add: nanmean_def valid_Nil_iff split: if_splits)
  then show ?thesis
    unfolding impute_def by (intro map_idI) (auto simp: assms split: option.splits)
qed

lemma impute_impute: "impute (impute xs) = impute xs"
proof (cases "nanmean xs")
  case None
  then show ?thesis by (simp add: impute_no_valid)
next
  case (Some m)
  have "\<forall>x \<in> set (impute xs). x \<noteq> None"
    using Some by (auto simp: impute_def split: option.splits)
  then have "map (\<lambda>x. case x of None \<Rightarrow> nanmean (impute xs) | Some v \<Rightarrow> Some v) (impute xs) = impute xs"
    by (intro map_idI) (auto split: option.splits)
  then show ?thesis by (simp add: impute_def [of "impute xs"])
qed

lemma fillna_impute: "fillna (Float64 xs) (nanmean xs) = Float64 (impute xs)"
proof (cases "nanmean xs")
  case None
  then show ?thesis by (simp add: impute_no_valid)
next
  case (Some m)
  then show ?thesis by (auto simp: impute_def split: option.splits)
qed

lemma impute_ints: "impute (map (\<lambda>n. Some (f n)) ns) = map (\<lambda>n. Some (f n)) ns"
  by (simp add: impute_def)

lemma clean_col_floats:
  "floats (clean_col parse (str_strip col)) = Inr (impute (coerce parse col))"
proof (cases col)
  case (Float64 xs)
  then show ?thesis by (simp add: clean_col_def coerce_def fillna_impute)
next
  case (Int64 ns)
  then show ?thesis by (simp add: clean_col_def coerce_def impute_ints)
next
  case (Object ss)
  then show ?thesis
    by (simp add: clean_col_def coerce_def fillna_impute comp_def)
qed

lemma clean_col_idem: "clean_col parse (clean_col parse col) = clean_col parse col"
proof (cases col)
  case (Float64 xs)
  then show ?thesis by (simp add: clean_col_def fillna_impute impute_impute)
next
  case (Int64 ns)
  then show ?thesis by (simp add: clean_col_def)
next
  case (Object ss)
  then show ?thesis by (simp add: clean_col_def fillna_impute impute_impute)
qed

lemma object_columns_subset: "set (object_columns f) \<subseteq> set (columns f)"
  by (auto simp: object_columns_def columns_def)

lemma distinct_object_columns: "wf_frame f \<Longrightarrow> distinct (object_columns f)"
  by (simp add: wf_frame_def columns_def object_columns_def distinct_map_filter)

lemma clean_data_frame:
  assumes "df0 < length st" and "wf_frame (st ! df0)"
    and "set subjects \<subseteq> set (columns (st ! df0))"
  shows "clean_data parse df0 subjects st =
           (Inr (length st), st @ [cleaned parse subjects (st ! df0)])"
proof -
  let ?f0 = "st ! df0"
  let ?df = "length st"
  let ?st1 = "st @ [?f0]"
  let ?f2 = "fold (\<lambda>c. map_col c str_strip) (object_columns ?f0) ?f0"
  have a: "for_each (\<lambda>col. update_column ?df col (\<lambda>c. Inr (str_strip c))) (object_columns ?f0) ?st1
        = (None, ?st1[?df := fold (\<lambda>c. map_col c str_strip) (object_columns ?f0) (?st1 ! ?df)])
        \<and> columns (fold (\<lambda>c. map_col c str_strip) (object_columns ?f0) (?st1 ! ?df)) = columns ?f0"
  proof (rule for_each_frame [where P = "\<lambda>f. columns f = columns ?f0"])
    fix x and st' :: store
    assume "x \<in> set (object_columns ?f0)" "?df < length st'" "columns (st' ! ?df) = columns ?f0"
    then show "update_column ?df x (\<lambda>c. Inr (str_strip c)) st' = (None, st'[?df := map_col x str_strip (st' ! ?df)])
        \<and> columns (map_col x str_strip (st' ! ?df)) = columns ?f0"
      using object_columns_subset [of ?f0] by (simp add: update_column_pure columns_map_col subset_iff)
  qed simp_all
  have b: "for_each (clean_subject parse ?df) subjects (st @ [?f2])
        = (None, (st @ [?f2])[?df := fold (\<lambda>s. map_col s (clean_col parse)) subjects ((st @ [?f2]) ! ?df)])
        \<and> columns (fold (\<lambda>s. map_col s (clean_col parse)) subjects ((st @ [?f2]) ! ?df)) = columns ?f0"
  proof (rule for_each_frame [where P = "\<lambda>f. columns f = columns ?f0"])
    fix x and st' :: store
    assume "x \<in> set subjects" "?df < length st'" "columns (st' ! ?df) = columns ?f0"
    then show "clean_subject parse ?df x st' = (None, st'[?df := map_col x (clean_col parse) (st' ! ?df)])
        \<and> columns (map_col x (clean_col parse) (st' ! ?df)) = columns ?f0"
      using assms(3) by (simp add: clean_subject_pure columns_map_col subset_iff)
  qed (simp_all add: columns_fold_map_col)
  show ?thesis
    using a b by (simp add: clean_data_def copy_def cleaned_def)
qed

lemma getitem_cleaned:
  assumes "wf_frame f" and "s \<in> set subjects" and "getitem f s = Inr col"
  shows "getitem (cleaned parse subjects f) s = Inr (clean_col parse (str_strip col))"
proof -
  have c: "map_of (data f) s = Some col"
    using assms(3) by (simp add: getitem_def split: option.splits)
  have "s \<notin> set (object_columns f) \<Longrightarrow> str_strip col = col"
  proof (cases col)
    case (Object ss)
    assume n: "s \<notin> set (object_columns f)"
    have "(s, col) \<in> set (data f)" using c by (rule map_of_SomeD)
    then have "s \<in> set (object_columns f)" using Object by (force simp: object_columns_def)
    then show ?thesis using n by simp
  qed simp_all
  then have "map_of (data (fold (\<lambda>c. map_col c str_strip) (object_columns f) f)) s = Some (str_strip col)"
    using c distinct_object_columns [OF assms(1)] by (simp add: map_of_fold_map_col)
  then have "map_of (data (cleaned parse subjects f)) s = Some (clean_col parse (str_strip col))"
    using assms(2) by (simp add: cleaned_def map_of_fold_map_col clean_col_idem)
  then show ?thesis by (simp add: getitem_def)
qed

text \<open>
  C1. Cleaning replaces each subject cell that is no number by the mean of the cells of
  the same column that were numbers in the raw table: for every subject \<open>s\<close> the
  cleaned column is \<open>impute\<close> of the coerced raw column \<open>s\<close> of the table passed in.
  The fill value is computed from the raw column alone, so it includes no imputed cell and
  no other column. On the table of the example, Math becomes 90, 60, 75 and Sci stays
  80, 40, 100.
\<close>

theorem clean_data_imputes:
  assumes "df0 < length st" and "wf_frame (st ! df0)"
    and "set subjects \<subseteq> set (columns (st ! df0))"
  shows "\<exists>st'. clean_data parse df0 subjects st = (Inr (length st), st') \<and>
           (\<forall>s \<in> set subjects. \<exists>col col'.
              getitem (st ! df0) s = Inr col \<and>
              getitem (st' ! length st) s = Inr col' \<and>
              floats col' = Inr (impute (coerce parse col)))"
proof -
  let ?f = "cleaned parse subjects (st ! df0)"
  have "\<exists>col col'. getitem (st ! df0) s = Inr col \<and> getitem ?f s = Inr col' \<and>
          floats col' = Inr (impute (coerce parse col))" if s: "s \<in> set subjects" for s
  proof -
    have "s \<in> set (columns (st ! df0))" using s assms(3) by auto
    then obtain col where c: "getitem (st ! df0) s = Inr col"
      by (metis columns_def getitem_def map_of_eq_None_iff not_Some_eq option.simps(5) set_map)
    show ?thesis
      using c getitem_cleaned [OF assms(2) s c, of parse] clean_col_floats [of parse col] by simp
  qed
  then show ?thesis
    using clean_data_frame [OF assms, of parse] by simp
qed

theorem clean_data_imputes_witness:
  "0 < length [example_raw] \<and> wf_frame ([example_raw] ! 0) \<and>
   set [''Math'', ''Sci''] \<subseteq> set (columns ([example_raw] ! 0)) \<and>
   (\<exists>st'. clean_data parse_decimal 0 [''Math'', ''Sci''] [example_raw] = (Inr 1, st') \<and>
      getitem (st' ! 1) ''Math'' = Inr (Float64 [Some 90, Some 60, Some 75]) \<and>
      getitem (st' ! 1) ''Sci'' = Inr (Int64 [80, 40, 100]))"
proof -
  have h: "0 < length [example_raw]" "wf_frame ([example_raw] ! 0)"
    "set [''Math'', ''Sci''] \<subseteq> set (columns ([example_raw] ! 0))"
    by (simp_all add: example_raw_def wf_frame_def columns_def)
  obtain st' where r: "clean_data parse_decimal 0 [''Math'', ''Sci''] [example_raw] = (Inr 1, st')"
    and c: "\<forall>s \<in> set [''Math'', ''Sci'']. \<exists>col col'.
              getitem ([example_raw] ! 0) s = Inr col \<and>
              getitem (st' ! 1) s = Inr col' \<and>
              floats col' = Inr (impute (coerce parse_decimal col))"
    using clean_data_imputes [OF h, of parse_decimal] by auto
  have st': "st' = [example_raw, cleaned parse_decimal [''Math'', ''Sci''] example_raw]"
    using r clean_data_frame [OF h, of parse_decimal] by simp
  have m: "getitem (st' ! 1) ''Math'' = Inr (Float64 [Some 90, Some 60, Some 75])"
    unfolding st'
    by (simp add: cleaned_def example_raw_def object_columns_def map_col_def setitem_def
        getitem_def clean_col_def nanmean_def valid_def strip_def isspace_def astype_str_def
        parse_decimal_def parse_unsigned_def digit_def)
  have s: "getitem (st' ! 1) ''Sci'' = Inr (Int64 [80, 40, 100])"
    unfolding st'
    by (simp add: cleaned_def example_raw_def object_columns_def map_col_def setitem_def
        getitem_def clean_col_def)
  show ?thesis using h r m s by blast
qed

section \<open>Properties of the student metrics\<close>

lemma length_filter_mono:
  "(\<And>w. w \<in> set ts \<Longrightarrow> P w \<Longrightarrow> Q w) \<Longrightarrow> length (filter P ts) \<le> length (filter Q ts)"
  by (induction ts) auto

lemma length_filter_strict:
  assumes "\<And>w. w \<in> set ts \<Longrightarrow> P w \<Longrightarrow> Q w" and "y \<in> set ts" and "Q y" and "\<not> P y"
  shows "length (filter P ts) < length (filter Q ts)"
  using assms
proof (induction ts)
  case Nil
  then show ?case by simp
next
  case (Cons a ts)
  have m: "length (filter P ts) \<le> length (filter Q ts)"
    using Cons.prems(1) by (intro length_filter_mono) auto
  show ?case
  proof (cases "y = a")
    case True
    then show ?thesis using m Cons.prems by simp
  next
    case False
    then have "length (filter P ts) < length (filter Q ts)"
      using Cons by auto
    then show ?thesis using Cons.prems(1) [of a] by auto
  qed
qed

lemma greater_count_antimono:
  assumes "x < y" and "y \<in> set ts"
  shows "greater_count ts y < greater_count ts x"
  unfolding greater_count_def
  using assms by (intro length_filter_strict [where y = y]) auto

lemma greater_count_top:
  assumes "\<forall>w \<in> set ts. w \<le> x"
  shows "greater_count ts x = 0"
  using assms by (auto simp: greater_count_def filter_empty_conv)

lemma greater_count_less:
  assumes "x \<in> set ts"
  shows "greater_count ts x < length ts"
proof -
  have "length (filter (\<lambda>w. x < w) ts) < length (filter (\<lambda>w. True) ts)"
    using assms by (intro length_filter_strict [where y = x]) auto
  then show ?thesis by (simp add: greater_count_def)
qed

lemma count_ge_split:
  "length (filter (\<lambda>w. x \<le> w) ts) = greater_count ts x + tie_size ts x"
  by (induction ts) (auto simp: greater_count_def tie_size_def)

lemma rank_gap:
  fixes ts :: "real list"
  assumes "1 \<le> r" and "r \<le> length ts"
    and "\<forall>x \<in> set ts. Suc (greater_count ts x) \<noteq> r"
  shows "\<exists>x \<in> set ts. Suc (greater_count ts x) < r \<and> r < Suc (greater_count ts x) + tie_size ts x"
proof -
  have ne: "ts \<noteq> []" using assms(1,2) by auto
  let ?A = "{x \<in> set ts. Suc (greater_count ts x) < r}"
  have "Max (set ts) \<in> set ts" using ne by (intro Max_in) auto
  moreover have "greater_count ts (Max (set ts)) = 0"
    by (intro greater_count_top) (simp add: ne)
  ultimately have "Max (set ts) \<in> ?A"
    using assms(1,3) by (metis (mono_tags, lifting) One_nat_def le_neq_implies_less mem_Collect_eq)
  then have A: "finite ?A" "?A \<noteq> {}" by auto
  define x0 where "x0 = Min ?A"
  have x0: "x0 \<in> ?A" unfolding x0_def using A by (intro Min_in)
  have least: "\<And>y. y \<in> ?A \<Longrightarrow> x0 \<le> y" unfolding x0_def using A by simp
  have "r < Suc (greater_count ts x0) + tie_size ts x0"
  proof (rule ccontr)
    assume "\<not> r < Suc (greater_count ts x0) + tie_size ts x0"
    then have le: "Suc (length (filter (\<lambda>w. x0 \<le> w) ts)) \<le> r"
      by (simp add: count_ge_split)
    then have "length (filter (\<lambda>w. x0 \<le> w) ts) < length ts" using assms(2) by simp
    then have "\<exists>w \<in> set ts. \<not> x0 \<le> w"
      by (metis filter_True less_irrefl)
    then have B: "finite {w \<in> set ts. w < x0}" "{w \<in> set ts. w < x0} \<noteq> {}" by auto
    define y where "y = Max {w \<in> set ts. w < x0}"
    have y: "y \<in> {w \<in> set ts. w < x0}" unfolding y_def using B by (intro Max_in)
    have top: "\<And>w. w \<in> set ts \<Longrightarrow> w < x0 \<Longrightarrow> w \<le> y" unfolding y_def using B by simp
    have "filter (\<lambda>w. y < w) ts = filter (\<lambda>w. x0 \<le> w) ts"
    proof (rule filter_cong [OF refl])
      fix w assume "w \<in> set ts"
      then show "(y < w) = (x0 \<le> w)" using y top [of w] by (cases "w < x0") auto
    qed
    then have "greater_count ts y = length (filter (\<lambda>w. x0 \<le> w) ts)"
      by (simp add: greater_count_def)
    then have "Suc (greater_count ts y) \<le> r" using le by simp
    moreover have "Suc (greater_count ts y) \<noteq> r" using assms(3) y by auto
    ultimately have "y \<in> ?A" using y by auto
    then have "x0 \<le> y" by (rule least)
    then show False using y by auto
  qed
  then show ?thesis using x0 by auto
qed


lemma getitem_setitem_other: "c' \<noteq> c \<Longrightarrow> getitem (setitem f c a) c' = getitem f c'"
  by (simp add: getitem_def setitem_def update_conv')

lemma nrows_setitem: "nrows (setitem f c a) = nrows f"
  by (simp add: setitem_def)

lemma numeric_subjects_setitem:
  assumes "numeric_subjects f ss" and "\<not> is_object col"
  shows "numeric_subjects (setitem f t col) ss"
proof -
  have "case getitem (setitem f t col) s of Inl e \<Rightarrow> False | Inr c \<Rightarrow> \<not> is_object c"
    if "s \<in> set ss" for s
  proof (cases "s = t")
    case True
    then show ?thesis using assms(2) by (simp add: getitem_setitem)
  next
    case False
    then show ?thesis using assms(1) that
      by (simp add: getitem_setitem_other numeric_subjects_def list_all_iff)
  qed
  then show ?thesis by (simp add: numeric_subjects_def list_all_iff)
qed

lemma select_numeric:
  assumes "numeric_subjects f ss"
  shows "\<exists>cols. select f ss = Inr cols \<and> numeric_block cols = Inr (subject_block f ss)"
  using assms
proof (induction ss)
  case Nil
  then show ?case by (simp add: subject_block_def)
next
  case (Cons s ss)
  then obtain cols where c: "select f ss = Inr cols" "numeric_block cols = Inr (subject_block f ss)"
    by (auto simp: numeric_subjects_def)
  obtain col where g: "getitem f s = Inr col" "\<not> is_object col"
    using Cons.prems by (auto simp: numeric_subjects_def split: sum.splits)
  then obtain xs where "floats col = Inr xs" by (cases col) auto
  then show ?case using c g by (simp add: subject_block_def)
qed

lemma row_reduce_numeric:
  assumes "numeric_subjects f ss"
  shows "row_reduce g f ss = Inr (Float64 (map g (subject_rows f ss)))"
  using select_numeric [OF assms] by (auto simp: row_reduce_def subject_rows_def)

lemma assign_rowwise_numeric:
  assumes "numeric_subjects (st ! df) ss"
  shows "assign_rowwise df t g ss st =
           (None, st[df := setitem (st ! df) t (Float64 (map g (subject_rows (st ! df) ss)))])"
  by (simp add: assign_rowwise_def row_reduce_numeric [OF assms] store_setitem_def)

lemma valid_Some_image: "valid (map (\<lambda>v. Some (h v)) vs) = map h vs"
  by (induction vs) (simp_all add: valid_def)

lemma trunc_of_nat: "trunc (1 + real n) = 1 + int n"
proof -
  have "1 + real n = real_of_int (1 + int n)" by simp
  then show ?thesis unfolding trunc_def by (simp only: floor_of_int) simp
qed

lemma rank_column_totals:
  "rank_column (Float64 (map Some ts)) = Inr (Int64 (ranks_of ts))"
proof -
  have "rank_min_desc (map Some ts) = map (\<lambda>v. Some (1 + real (greater_count ts v))) ts"
    by (simp add: rank_min_desc_def valid_all_Some greater_count_def comp_def)
  moreover have "None \<notin> set (map (\<lambda>v. Some (1 + real (greater_count ts v))) ts)" by auto
  ultimately show ?thesis
    by (simp add: rank_column_def astype_int_def valid_Some_image ranks_of_def trunc_of_nat comp_def
        del: set_map)
qed

lemma student_metrics_frame:
  assumes "df0 < length st" and "numeric_subjects (st ! df0) subjects"
  shows "student_metrics df0 subjects st =
           (Inr (length st), st @ [with_metrics (st ! df0) subjects])"
proof -
  let ?f0 = "st ! df0"
  let ?df = "length st"
  let ?f2 = "setitem ?f0 ''Total'' (Float64 (map Some (totals_of ?f0 subjects)))"
  let ?f3 = "setitem ?f2 ''Average'' (Float64 (map nanmean (subject_rows ?f2 subjects)))"
  have n1: "numeric_subjects ((st @ [?f0]) ! ?df) subjects" using assms(2) by simp
  have 1: "assign_rowwise ?df ''Total'' (\<lambda>r. Some (nansum r)) subjects (st @ [?f0]) = (None, st @ [?f2])"
    by (simp add: assign_rowwise_numeric [OF n1] totals_of_def comp_def)
  have n2: "numeric_subjects ((st @ [?f2]) ! ?df) subjects"
    using assms(2) by (simp add: numeric_subjects_setitem)
  have 2: "assign_rowwise ?df ''Average'' nanmean subjects (st @ [?f2]) = (None, st @ [?f3])"
    by (simp add: assign_rowwise_numeric [OF n2])
  have "getitem ?f3 ''Total'' = Inr (Float64 (map Some (totals_of ?f0 subjects)))"
    by (simp add: getitem_setitem_other getitem_setitem)
  then have 3: "assign_column ?df ''Rank'' ''Total'' rank_column (st @ [?f3]) =
      (None, st @ [with_metrics ?f0 subjects])"
    by (simp add: assign_column_def rank_column_totals store_setitem_def with_metrics_def Let_def)
  show ?thesis
    by (simp add: student_metrics_def copy_def 1 2 3)
qed


lemma ranks_of_nth: "a < length ts \<Longrightarrow> ranks_of ts ! a = 1 + int (greater_count ts (ts ! a))"
  by (simp add: ranks_of_def)

lemma ranks_of_gap:
  assumes "1 \<le> r" and "r \<le> int (length ts)" and "r \<notin> set (ranks_of ts)"
  shows "\<exists>a < length ts. ranks_of ts ! a < r \<and> r < ranks_of ts ! a + int (tie_size ts (ts ! a))"
proof -
  have "\<forall>x \<in> set ts. Suc (greater_count ts x) \<noteq> nat r"
  proof
    fix x assume x: "x \<in> set ts"
    have "1 + int (greater_count ts x) \<in> set (ranks_of ts)"
      using x by (auto simp: ranks_of_def)
    then have "1 + int (greater_count ts x) \<noteq> r" using assms(3) by auto
    then show "Suc (greater_count ts x) \<noteq> nat r" using assms(1) by auto
  qed
  moreover have "1 \<le> nat r" "nat r \<le> length ts" using assms(1,2) by auto
  ultimately obtain x where x: "x \<in> set ts" "Suc (greater_count ts x) < nat r"
    "nat r < Suc (greater_count ts x) + tie_size ts x"
    using rank_gap [of "nat r" ts] by blast
  obtain a where a: "a < length ts" "ts ! a = x" using x(1) by (auto simp: in_set_conv_nth)
  have "ranks_of ts ! a < r \<and> r < ranks_of ts ! a + int (tie_size ts (ts ! a))"
    using x(2,3) a assms(1) by (simp add: ranks_of_nth) linarith
  then show ?thesis using a(1) by blast
qed

lemma ranks_of_order:
  assumes "a < length ts" and "b < length ts"
  shows "(ts ! b < ts ! a \<longrightarrow> ranks_of ts ! a < ranks_of ts ! b) \<and>
         (ts ! a = ts ! b \<longrightarrow> ranks_of ts ! a = ranks_of ts ! b)"
  using assms greater_count_antimono [of "ts ! b" "ts ! a" ts]
  by (simp add: ranks_of_nth)

lemma ranks_of_top:
  assumes "a < length ts" and "\<forall>b < length ts. ts ! b \<le> ts ! a"
  shows "ranks_of ts ! a = 1"
proof -
  have "\<forall>w \<in> set ts. w \<le> ts ! a" using assms(2) by (auto simp: in_set_conv_nth)
  then show ?thesis using assms(1) by (simp add: ranks_of_nth greater_count_top)
qed

lemma ranks_of_range:
  assumes "a < length ts"
  shows "1 \<le> ranks_of ts ! a \<and> ranks_of ts ! a \<le> int (length ts)"
  using assms greater_count_less [of "ts ! a" ts] by (simp add: ranks_of_nth)

lemma length_totals_of: "length (totals_of f ss) = nrows f"
  by (simp add: totals_of_def subject_rows_def row_cells_def)

lemma with_metrics_Total:
  "getitem (with_metrics f ss) ''Total'' = Inr (Float64 (map Some (totals_of f ss)))"
  by (simp add: with_metrics_def Let_def getitem_setitem_other getitem_setitem)

lemma with_metrics_Rank:
  "getitem (with_metrics f ss) ''Rank'' = Inr (Int64 (ranks_of (totals_of f ss)))"
  by (simp add: with_metrics_def Let_def getitem_setitem)

text \<open>
  C2. On a clean table the Rank column is the minimum competition ranking of the Total
  column in descending order: a greater Total has a smaller Rank, equal Totals have equal
  Ranks, a highest Total has Rank 1, every Rank lies between 1 and the number of students,
  and a rank between 1 and the number of students that no student has is one of the ranks
  skipped after a tie group (it lies above the Rank of some student by less than the
  number of students tied with that student).
\<close>

theorem rank_is_min_competition:
  assumes "df0 < length st" and "numeric_subjects (st ! df0) subjects"
    and "wf_frame (st ! df0)"
  shows "\<exists>st' totals ranks.
      student_metrics df0 subjects st = (Inr (length st), st') \<and>
      getitem (st' ! length st) ''Total'' = Inr (Float64 (map Some totals)) \<and>
      getitem (st' ! length st) ''Rank'' = Inr (Int64 ranks) \<and>
      length totals = nrows (st ! df0) \<and> length ranks = nrows (st ! df0) \<and>
      (\<forall>a < length totals. \<forall>b < length totals.
          (totals ! b < totals ! a \<longrightarrow> ranks ! a < ranks ! b) \<and>
          (totals ! a = totals ! b \<longrightarrow> ranks ! a = ranks ! b)) \<and>
      (\<forall>a < length totals. (\<forall>b < length totals. totals ! b \<le> totals ! a) \<longrightarrow> ranks ! a = 1) \<and>
      (\<forall>a < length totals. 1 \<le> ranks ! a \<and> ranks ! a \<le> int (length totals)) \<and>
      (\<forall>r. 1 \<le> r \<and> r \<le> int (length totals) \<and> r \<notin> set ranks \<longrightarrow>
          (\<exists>a < length totals.
              ranks ! a < r \<and> r < ranks ! a + int (tie_size totals (totals ! a))))"
proof -
  let ?ts = "totals_of (st ! df0) subjects"
  let ?st' = "st @ [with_metrics (st ! df0) subjects]"
  have 1: "student_metrics df0 subjects st = (Inr (length st), ?st')"
    by (rule student_metrics_frame [OF assms(1,2)])
  have 2: "getitem (?st' ! length st) ''Total'' = Inr (Float64 (map Some ?ts))"
    by (simp add: with_metrics_Total)
  have 3: "getitem (?st' ! length st) ''Rank'' = Inr (Int64 (ranks_of ?ts))"
    by (simp add: with_metrics_Rank)
  have 4: "length ?ts = nrows (st ! df0)" "length (ranks_of ?ts) = nrows (st ! df0)"
    by (simp_all add: length_totals_of ranks_of_def)
  have 5: "\<forall>a < length ?ts. \<forall>b < length ?ts.
          (?ts ! b < ?ts ! a \<longrightarrow> ranks_of ?ts ! a < ranks_of ?ts ! b) \<and>
          (?ts ! a = ?ts ! b \<longrightarrow> ranks_of ?ts ! a = ranks_of ?ts ! b)"
    using ranks_of_order by blast
  have 6: "\<forall>a < length ?ts. (\<forall>b < length ?ts. ?ts ! b \<le> ?ts ! a) \<longrightarrow> ranks_of ?ts ! a = 1"
    using ranks_of_top by blast
  have 7: "\<forall>a < length ?ts. 1 \<le> ranks_of ?ts ! a \<and> ranks_of ?ts ! a \<le> int (length ?ts)"
    using ranks_of_range by blast
  have 8: "\<forall>r. 1 \<le> r \<and> r \<le> int (length ?ts) \<and> r \<notin> set (ranks_of ?ts) \<longrightarrow>
          (\<exists>a < length ?ts.
              ranks_of ?ts ! a < r \<and> r < ranks_of ?ts ! a + int (tie_size ?ts (?ts ! a)))"
    using ranks_of_gap by blast
  show ?thesis
    using 1 2 3 4 5 6 7 8 by blast
qed

theorem rank_is_min_competition_witness:
  "0 < length [example_clean] \<and> numeric_subjects ([example_clean] ! 0) [''Math'', ''Sci''] \<and>
   wf_frame ([example_clean] ! 0) \<and>
   (\<exists>st'. student_metrics 0 [''Math'', ''Sci''] [example_clean] = (Inr 1, st') \<and>
      getitem (st' ! 1) ''Total'' = Inr (Float64 [Some 170, Some 100, Some 175]) \<and>
      getitem (st' ! 1) ''Rank'' = Inr (Int64 [2, 3, 1]))"
proof -
  have h: "0 < length [example_clean]" "numeric_subjects ([example_clean] ! 0) [''Math'', ''Sci'']"
    by (simp_all add: example_clean_def numeric_subjects_def getitem_def)
  have w: "wf_frame ([example_clean] ! 0)"
    by (simp add: example_clean_def wf_frame_def columns_def)
  obtain st' where r: "student_metrics 0 [''Math'', ''Sci''] [example_clean] = (Inr 1, st')"
    using rank_is_min_competition [OF h w] by auto
  have st': "st' = [example_clean, with_metrics example_clean [''Math'', ''Sci'']]"
    using r student_metrics_frame [OF h] by simp
  have ts: "totals_of example_clean [''Math'', ''Sci''] = [170, 100, 175]"
    by (simp add: totals_of_def subject_rows_def subject_block_def row_cells_def example_clean_def
        getitem_def nansum_def valid_def upt_rec)
  have t: "getitem (st' ! 1) ''Total'' = Inr (Float64 [Some 170, Some 100, Some 175])"
    unfolding st' by (simp add: with_metrics_Total ts)
  have k: "getitem (st' ! 1) ''Rank'' = Inr (Int64 [2, 3, 1])"
    unfolding st' by (simp add: with_metrics_Rank ts ranks_of_def greater_count_def)
  show ?thesis using h w r t k by blast
qed

section \<open>The store outside the copy\<close>

lemma update_column_frame:
  "update_column df c f st = (r, st') \<Longrightarrow>
     length st' = length st \<and> (\<forall>i. i \<noteq> df \<longrightarrow> st' ! i = st ! i)"
  by (auto simp: update_column_def store_setitem_def split: sum.splits)

lemma assign_column_frame:
  "assign_column df t s f st = (r, st') \<Longrightarrow>
     length st' = length st \<and> (\<forall>i. i \<noteq> df \<longrightarrow> st' ! i = st ! i)"
  by (auto simp: assign_column_def store_setitem_def split: sum.splits)

lemma assign_rowwise_frame:
  "assign_rowwise df t f subjects st = (r, st') \<Longrightarrow>
     length st' = length st \<and> (\<forall>i. i \<noteq> df \<longrightarrow> st' ! i = st ! i)"
  by (auto simp: assign_rowwise_def store_setitem_def split: sum.splits)

lemma for_each_only_writes:
  assumes "\<And>x st r st'. body x st = (r, st') \<Longrightarrow>
             length st' = length st \<and> (\<forall>i. i \<noteq> df \<longrightarrow> st' ! i = st ! i)"
    and "for_each body xs st = (r, st')"
  shows "length st' = length st \<and> (\<forall>i. i \<noteq> df \<longrightarrow> st' ! i = st ! i)"
  using assms(2)
proof (induction xs arbitrary: st)
  case Nil
  then show ?case by simp
next
  case (Cons x xs)
  obtain r1 st1 where b: "body x st = (r1, st1)" by (cases "body x st")
  note f = assms(1) [OF b]
  show ?case
  proof (cases r1)
    case None
    then have "for_each body xs st1 = (r, st')" using Cons.prems b by simp
    from Cons.IH [OF this] f show ?thesis by simp
  next
    case (Some e)
    then show ?thesis using Cons.prems b f by simp
  qed
qed

lemma clean_subject_frame:
  "clean_subject parse df s st = (r, st') \<Longrightarrow>
     length st' = length st \<and> (\<forall>i. i \<noteq> df \<longrightarrow> st' ! i = st ! i)"
  unfolding clean_subject_def
  by (auto split: prod.splits option.splits dest!: update_column_frame)

lemma prefix_kept:
  assumes "length st' = Suc (length st)" and "\<forall>i. i \<noteq> length st \<longrightarrow> st' ! i = (st @ [f]) ! i"
  shows "take (length st) st' = st"
  using assms by (intro nth_equalityI) (auto simp: nth_append)

lemma clean_data_keeps_store:
  assumes "clean_data parse df0 subjects st = (r, st')"
  shows "take (length st) st' = st \<and> length st' = Suc (length st) \<and> (\<forall>df. r = Inr df \<longrightarrow> df = length st)"
proof -
  let ?df = "length st"
  let ?st1 = "st @ [st ! df0]"
  obtain r2 st2 where 2: "for_each (\<lambda>col. update_column ?df col (\<lambda>c. Inr (str_strip c)))
                  (object_columns (?st1 ! ?df)) ?st1 = (r2, st2)"
    by (metis surj_pair)
  have f2: "length st2 = length ?st1 \<and> (\<forall>i. i \<noteq> ?df \<longrightarrow> st2 ! i = ?st1 ! i)"
    by (rule for_each_only_writes [OF _ 2]) (rule update_column_frame)
  obtain r3 st3 where 3: "for_each (clean_subject parse ?df) subjects st2 = (r3, st3)"
    by (metis surj_pair)
  have f3: "length st3 = length st2 \<and> (\<forall>i. i \<noteq> ?df \<longrightarrow> st3 ! i = st2 ! i)"
    by (rule for_each_only_writes [OF _ 3]) (rule clean_subject_frame)
  have "st' = st2 \<or> st' = st3"
    using assms 2 3 by (auto simp: clean_data_def copy_def split: option.splits)
  then have "length st' = Suc (length st) \<and> (\<forall>i. i \<noteq> ?df \<longrightarrow> st' ! i = ?st1 ! i)"
    using f2 f3 by auto
  then have "take (length st) st' = st \<and> length st' = Suc (length st)"
    using prefix_kept [of st' st "st ! df0"] by simp
  moreover have "\<forall>df. r = Inr df \<longrightarrow> df = length st"
    using assms 2 3 by (auto simp: clean_data_def copy_def split: option.splits)
  ultimately show ?thesis by simp
qed

lemma student_metrics_keeps_store:
  assumes "student_metrics df0 subjects st = (r, st')"
  shows "take (length st) st' = st \<and> length st' = Suc (length st) \<and> (\<forall>df. r = Inr df \<longrightarrow> df = length st)"
proof -
  let ?df = "length st"
  let ?st1 = "st @ [st ! df0]"
  obtain r2 st2 where 2: "assign_rowwise ?df ''Total'' (\<lambda>r. Some (nansum r)) subjects ?st1 = (r2, st2)"
    by (metis surj_pair)
  note f2 = assign_rowwise_frame [OF 2]
  obtain r3 st3 where 3: "assign_rowwise ?df ''Average'' nanmean subjects st2 = (r3, st3)"
    by (metis surj_pair)
  note f3 = assign_rowwise_frame [OF 3]
  obtain r4 st4 where 4: "assign_column ?df ''Rank'' ''Total'' rank_column st3 = (r4, st4)"
    by (metis surj_pair)
  note f4 = assign_column_frame [OF 4]
  have "st' = st2 \<or> st' = st3 \<or> st' = st4"
    using assms 2 3 4 by (auto simp: student_metrics_def copy_def split: option.splits)
  then have "length st' = Suc (length st) \<and> (\<forall>i. i \<noteq> ?df \<longrightarrow> st' ! i = ?st1 ! i)"
    using f2 f3 f4 by auto
  then have "take (length st) st' = st \<and> length st' = Suc (length st)"
    using prefix_kept [of st' st "st ! df0"] by simp
  moreover have "\<forall>df. r = Inr df \<longrightarrow> df = length st"
    using assms 2 3 4 by (auto simp: student_metrics_def copy_def split: option.splits)
  ultimately show ?thesis by simp
qed

text \<open>
  C10. \<open>clean_data\<close> and \<open>student_metrics\<close> work on a copy: whatever they return, the
  frame passed to them is the same afterwards (and so is every other frame that existed
  before the call), and the frame they return is a new one.
\<close>

theorem copies_leave_argument_unchanged:
  assumes "df0 < length st"
    and "clean_data parse df0 subjects st = (r1, st1)"
    and "student_metrics df0 subjects' st = (r2, st2)"
  shows "st1 ! df0 = st ! df0 \<and> take (length st) st1 = st \<and>
         (\<forall>df. r1 = Inr df \<longrightarrow> \<not> df < length st \<and> df < length st1) \<and>
         st2 ! df0 = st ! df0 \<and> take (length st) st2 = st \<and>
         (\<forall>df. r2 = Inr df \<longrightarrow> \<not> df < length st \<and> df < length st2)"
proof -
  note c = clean_data_keeps_store [OF assms(2)]
  note m = student_metrics_keeps_store [OF assms(3)]
  have "st1 ! df0 = take (length st) st1 ! df0" using assms(1) by simp
  moreover have "st2 ! df0 = take (length st) st2 ! df0" using assms(1) by simp
  ultimately show ?thesis using c m by auto
qed

theorem copies_leave_argument_unchanged_witness:
  "0 < length [example_raw] \<and>
   snd (clean_data parse_decimal 0 [''Math'', ''Sci''] [example_raw]) ! 0 = example_raw \<and>
   fst (clean_data parse_decimal 0 [''Math'', ''Sci''] [example_raw]) = Inr 1 \<and>
   snd (student_metrics 0 [''Sci''] [example_raw]) ! 0 = example_raw \<and>
   fst (student_metrics 0 [''Sci''] [example_raw]) = Inr 1"
proof -
  have h: "0 < length [example_raw]" by simp
  have w: "wf_frame ([example_raw] ! 0)"
    "set [''Math'', ''Sci''] \<subseteq> set (columns ([example_raw] ! 0))"
    by (simp_all add: example_raw_def wf_frame_def columns_def)
  have n: "numeric_subjects ([example_raw] ! 0) [''Sci'']"
    by (simp add: example_raw_def numeric_subjects_def getitem_def)
  have "snd (clean_data parse_decimal 0 [''Math'', ''Sci''] [example_raw]) ! 0 = [example_raw] ! 0"
    "snd (student_metrics 0 [''Sci''] [example_raw]) ! 0 = [example_raw] ! 0"
    using copies_leave_argument_unchanged [OF h surjective_pairing surjective_pairing,
        where parse = parse_decimal and subjects = "[''Math'', ''Sci'']" and subjects' = "[''Sci'']"]
    by simp_all
  then show ?thesis
    using clean_data_frame [OF h w, of parse_decimal] student_metrics_frame [OF h n] by simp
qed

section \<open>Properties of the consistency\<close>

lemma student_consistency_frame:
  assumes "df < length st" and "numeric_subjects (st ! df) subjects"
  shows "student_consistency df subjects st =
           (Inr df, st[df := setitem (st ! df) ''Consistency''
                 (Float64 (map (nanstd 1) (subject_rows (st ! df) subjects)))])"
  by (simp add: student_consistency_def assign_rowwise_numeric [OF assms(2)])

lemma nanstd_sample:
  "nanstd 1 marks = (if length (valid marks) < 2 then None else Some (sample_std (valid marks)))"
  by (auto simp: nanstd_def sample_std_def Let_def of_nat_diff)

text \<open>
  C4, as the code has it. \<open>std(axis=1)\<close> is called without \<open>ddof\<close>, so the divisor is
  the number of marks minus one: on a clean table the Consistency of a student is the
  sample standard deviation of the student's own marks across the subjects, and NaN
  for a student with fewer than two marks.
\<close>

theorem consistency_is_sample_std:
  assumes "df < length st" and "numeric_subjects (st ! df) subjects"
    and "wf_frame (st ! df)"
  shows "\<exists>st'. student_consistency df subjects st = (Inr df, st') \<and>
           getitem (st' ! df) ''Consistency'' =
             Inr (Float64 (map (\<lambda>marks. if length (valid marks) < 2 then None
                                        else Some (sample_std (valid marks)))
                            (subject_rows (st ! df) subjects)))"
proof -
  have "map (nanstd 1) (subject_rows (st ! df) subjects) =
        map (\<lambda>marks. if length (valid marks) < 2 then None else Some (sample_std (valid marks)))
          (subject_rows (st ! df) subjects)"
    by (rule map_cong [OF refl]) (rule nanstd_sample)
  then show ?thesis
    using assms(1) by (simp add: student_consistency_frame [OF assms(1,2)] getitem_setitem)
qed

lemma example_clean_rows:
  "subject_rows example_clean [''Math'', ''Sci''] =
     [[Some 90, Some 80], [Some 60, Some 40], [Some 75, Some 100]]"
  by (simp add: subject_rows_def subject_block_def row_cells_def example_clean_def
      getitem_def upt_rec)

lemma example_clean_numeric:
  "numeric_subjects example_clean [''Math'', ''Sci'']"
  by (simp add: example_clean_def numeric_subjects_def getitem_def)

theorem consistency_is_sample_std_witness:
  "0 < length [example_clean] \<and> numeric_subjects ([example_clean] ! 0) [''Math'', ''Sci''] \<and>
   wf_frame ([example_clean] ! 0) \<and>
   (\<exists>st'. student_consistency 0 [''Math'', ''Sci''] [example_clean] = (Inr 0, st') \<and>
      getitem (st' ! 0) ''Consistency'' =
        Inr (Float64 [Some (sqrt 50), Some (sqrt 200), Some (sqrt (625 / 2))]))"
proof -
  have h: "0 < length [example_clean]" "numeric_subjects ([example_clean] ! 0) [''Math'', ''Sci'']"
    by (simp_all add: example_clean_numeric)
  have w: "wf_frame ([example_clean] ! 0)"
    by (simp add: example_clean_def wf_frame_def columns_def)
  have "map (\<lambda>marks. if length (valid marks) < 2 then None else Some (sample_std (valid marks)))
          (subject_rows ([example_clean] ! 0) [''Math'', ''Sci'']) =
        [Some (sqrt 50), Some (sqrt 200), Some (sqrt (625 / 2))]"
    by (simp add: example_clean_rows valid_def sample_std_def sq_dev_def power2_eq_square)
  then show ?thesis
    using h w consistency_is_sample_std [OF h w] by simp
qed

text \<open>
  C4, as the claim states it, fails on the clean table of the example: the Consistency
  column is not the column of the population standard deviations of the rows (for the
  first student the marks 90 and 80 give the square root of 50, not of 25).
\<close>

theorem consistency_not_population_std:
  "getitem (snd (student_consistency 0 [''Math'', ''Sci''] [example_clean]) ! 0) ''Consistency'' \<noteq>
     Inr (Float64 (map (\<lambda>marks. Some (population_std (valid marks)))
            (subject_rows example_clean [''Math'', ''Sci''])))"
proof -
  have "student_consistency 0 [''Math'', ''Sci''] [example_clean] =
      (Inr 0, [setitem example_clean ''Consistency''
                 (Float64 (map (nanstd 1) (subject_rows example_clean [''Math'', ''Sci''])))])"
    using student_consistency_frame [of 0 "[example_clean]" "[''Math'', ''Sci'']"]
    by (simp add: example_clean_numeric)
  then show ?thesis
    by (simp add: getitem_setitem example_clean_rows nanstd_def population_std_def valid_def
        sq_dev_def power2_eq_square)
qed

section \<open>Properties of the subject metrics\<close>

lemma powr_three_halves:
  fixes x :: real
  assumes "0 \<le> x"
  shows "x powr (3 / 2) = x * sqrt x"
proof (cases "x = 0")
  case True
  then show ?thesis by simp
next
  case False
  then have p: "0 < x" using assms by simp
  have "x powr (3 / 2) = x powr (1 + 1 / 2)" by simp
  also have "\<dots> = x powr 1 * x powr (1 / 2)" by (rule powr_add)
  also have "\<dots> = x * sqrt x" using p by (simp add: powr_half_sqrt)
  finally show ?thesis .
qed

lemma sq_dev_nonneg: "0 \<le> sq_dev vs"
  unfolding sq_dev_def by (rule sum_list_nonneg) auto

lemma skew_formula:
  fixes n s2 s3 :: real
  assumes "2 < n" and "0 < s2"
  shows "n * sqrt (n - 1) / (n - 2) * (s3 / s2 powr (3 / 2)) =
         sqrt (n * (n - 1)) / (n - 2) * ((s3 / n) / (s2 / n) powr (3 / 2))"
proof -
  have n: "0 < n" "sqrt n * sqrt n = n" "sqrt n \<noteq> 0" using assms(1) by simp_all
  have q: "0 \<le> s2 / n" "0 \<le> s2" using assms n by simp_all
  have s: "sqrt s2 \<noteq> 0" using assms(2) by simp
  have "(s3 / n) / (s2 / n) powr (3 / 2) = (s3 / n) / (s2 / n * (sqrt s2 / sqrt n))"
    by (simp add: powr_three_halves [OF q(1)] real_sqrt_divide)
  also have "\<dots> = s3 * sqrt n / (s2 * sqrt s2)"
    using n s assms by (simp add: field_simps)
  finally have "sqrt (n * (n - 1)) / (n - 2) * ((s3 / n) / (s2 / n) powr (3 / 2)) =
      sqrt n * sqrt (n - 1) / (n - 2) * (s3 * sqrt n / (s2 * sqrt s2))"
    by (simp add: real_sqrt_mult)
  also have "\<dots> = (sqrt n * sqrt n) * sqrt (n - 1) / (n - 2) * (s3 / (s2 * sqrt s2))"
    by (simp only: times_divide_eq_right times_divide_eq_left mult_ac)
  also have "\<dots> = n * sqrt (n - 1) / (n - 2) * (s3 / s2 powr (3 / 2))"
    by (simp only: n(2) powr_three_halves [OF q(2)])
  finally show ?thesis by simp
qed

lemma nanskew_adjusted:
  assumes "3 \<le> length vs" and "sq_dev vs \<noteq> 0"
  shows "nanskew z (map Some vs) =
     Some (sqrt (real (length vs) * (real (length vs) - 1)) / (real (length vs) - 2)
             * third_standardized_moment vs)"
proof -
  have "0 < sq_dev vs" using assms(2) sq_dev_nonneg [of vs] by simp
  moreover have "2 < real (length vs)" using assms(1) by simp
  ultimately show ?thesis
    using assms skew_formula [of "real (length vs)" "sq_dev vs" "cube_dev vs"]
    by (simp add: nanskew_def valid_all_Some third_standardized_moment_def Let_def)
qed

lemma subject_metrics_loop_numeric:
  assumes "numeric_subjects f ss"
  shows "subject_metrics_loop z f ss acc =
           Inr (fold (\<lambda>s. AList.update s (describe z (marks_of f s))) ss acc)"
  using assms
proof (induction ss arbitrary: acc)
  case Nil
  then show ?case by simp
next
  case (Cons s ss)
  obtain col where g: "getitem f s = Inr col" "\<not> is_object col"
    using Cons.prems by (auto simp: numeric_subjects_def split: sum.splits)
  then obtain xs where x: "floats col = Inr xs" by (cases col) auto
  have "numeric_subjects f ss" using Cons.prems by (simp add: numeric_subjects_def)
  then show ?case using g x Cons.IH by (simp add: marks_of_def)
qed

lemma map_of_fold_update:
  "map_of (fold (\<lambda>s. AList.update s (g s)) ss acc) k =
     (if k \<in> set ss then Some (g k) else map_of acc k)"
  by (induction ss arbitrary: acc) (auto simp: update_conv')

lemma subject_metrics_row:
  assumes "numeric_subjects (st ! df) subjects" and "s \<in> set subjects"
  shows "\<exists>tbl. subject_metrics z df subjects st = Inr tbl \<and>
           map_of tbl s = Some (describe z (marks_of (st ! df) s))"
  using assms
  by (simp add: subject_metrics_def subject_metrics_loop_numeric map_of_fold_update)

lemma nanstd_population:
  "vs \<noteq> [] \<Longrightarrow> nanstd 0 (map Some vs) = Some (population_std vs)"
  by (simp add: nanstd_def valid_all_Some population_std_def)

text \<open>
  C8, as the code has it. \<open>skew()\<close> of pandas is the bias-corrected sample skewness: for a
  subject with at least three marks and a variance that is not zero, Skew is the third
  standardized moment of the population convention multiplied by
  \<open>sqrt (n * (n - 1)) / (n - 2)\<close>, where \<open>n\<close> is the number of marks. Std is the
  population standard deviation.
\<close>

theorem skew_is_bias_corrected:
  assumes "numeric_subjects (st ! df) subjects" and "s \<in> set subjects"
    and "marks_of (st ! df) s = map Some vs" and "3 \<le> length vs" and "sq_dev vs \<noteq> 0"
  shows "\<exists>tbl row. subject_metrics z df subjects st = Inr tbl \<and> map_of tbl s = Some row \<and>
           Std row = Some (population_std vs) \<and>
           Skew row = Some (sqrt (real (length vs) * (real (length vs) - 1))
                              / (real (length vs) - 2) * third_standardized_moment vs)"
proof -
  obtain tbl where t: "subject_metrics z df subjects st = Inr tbl"
      "map_of tbl s = Some (describe z (map Some vs))"
    using subject_metrics_row [OF assms(1,2), of z] assms(3) by auto
  have "vs \<noteq> []" using assms(4) by auto
  then have "Std (describe z (map Some vs)) = Some (population_std vs)"
    by (simp add: describe_def nanstd_population)
  moreover have "Skew (describe z (map Some vs)) =
      Some (sqrt (real (length vs) * (real (length vs) - 1))
              / (real (length vs) - 2) * third_standardized_moment vs)"
    by (simp add: describe_def nanskew_adjusted [OF assms(4,5)])
  ultimately show ?thesis using t by blast
qed

lemma sqrt_16: "sqrt 16 = 4"
  by (rule real_sqrt_unique) simp_all

lemma skew_example_moments:
  "sq_dev [47, 49, 51, 51, 52] = 16" "cube_dev [47, 49, 51, 51, 52] = - 18"
  by (simp_all add: sq_dev_def cube_dev_def power2_eq_square power3_eq_cube)

lemma skew_example_marks:
  "marks_of skew_example ''Math'' = map Some [47, 49, 51, 51, 52]"
  by (simp add: marks_of_def skew_example_def getitem_def)

lemma skew_example_numeric: "numeric_subjects skew_example [''Math'']"
  by (simp add: numeric_subjects_def skew_example_def getitem_def)

lemma skew_example_skew:
  "nanskew z [Some 47, Some 49, Some 51, Some 51, Some 52] = Some (- (15 / 16))"
proof -
  have p: "(16::real) powr (3 / 2) = 64" by (simp add: powr_three_halves sqrt_16)
  have v: "valid [Some 47, Some 49, Some 51, Some 51, Some 52] = [47, 49, 51, 51, 52]"
    by (simp add: valid_def)
  show ?thesis
    unfolding nanskew_def v Let_def skew_example_moments using p by simp
qed

lemma skew_example_moment:
  "third_standardized_moment [47, 49, 51, 51, 52] = - (9 * sqrt 5 / 32)"
proof -
  have "((16::real) / 5) powr (3 / 2) = 16 / 5 * (4 / sqrt 5)"
    by (simp add: powr_three_halves real_sqrt_divide sqrt_16)
  then show ?thesis
    unfolding third_standardized_moment_def skew_example_moments by (simp add: field_simps)
qed

lemma sqrt_5_not: "sqrt 5 \<noteq> 10 / 3"
proof
  assume a: "sqrt 5 = 10 / 3"
  have "(5::real) = (sqrt 5)\<^sup>2" by simp
  also have "\<dots> = (10 / 3)\<^sup>2" unfolding a ..
  finally show False by (simp add: power2_eq_square)
qed

theorem skew_is_bias_corrected_witness:
  "numeric_subjects ([skew_example] ! 0) [''Math''] \<and> ''Math'' \<in> set [''Math''] \<and>
   marks_of ([skew_example] ! 0) ''Math'' = map Some [47, 49, 51, 51, 52] \<and>
   3 \<le> length [47, 49, 51, 51, 52 :: real] \<and> sq_dev [47, 49, 51, 51, 52] \<noteq> 0 \<and>
   (\<exists>tbl row. subject_metrics None 0 [''Math''] [skew_example] = Inr tbl \<and>
      map_of tbl ''Math'' = Some row \<and> Std row = Some (sqrt (16 / 5)) \<and>
      Skew row = Some (sqrt 20 / 3 * third_standardized_moment [47, 49, 51, 51, 52]))"
proof -
  have h: "numeric_subjects ([skew_example] ! 0) [''Math'']" "''Math'' \<in> set [''Math'']"
    "marks_of ([skew_example] ! 0) ''Math'' = map Some [47, 49, 51, 51, 52]"
    "3 \<le> length [47, 49, 51, 51, 52 :: real]" "sq_dev [47, 49, 51, 51, 52] \<noteq> 0"
    by (simp_all add: skew_example_numeric skew_example_marks skew_example_moments)
  show ?thesis
    using h skew_is_bias_corrected [OF h, of None]
    by (simp add: population_std_def skew_example_moments)
qed

text \<open>
  C8, as the claim states it, fails: for the marks 47, 49, 51, 51, 52 the code computes
  the Skew -15/16, and the third standardized moment of the population convention is
  another number (-9 * sqrt 5 / 32).
\<close>

theorem skew_not_population_moment:
  "(case subject_metrics None 0 [''Math''] [skew_example] of
      Inl e \<Rightarrow> None
    | Inr tbl \<Rightarrow> map_option Skew (map_of tbl ''Math'')) = Some (Some (- (15 / 16))) \<and>
   third_standardized_moment [47, 49, 51, 51, 52] \<noteq> - (15 / 16)"
proof -
  obtain tbl where "subject_metrics None 0 [''Math''] [skew_example] = Inr tbl"
    "map_of tbl ''Math'' = Some (describe None (marks_of ([skew_example] ! 0) ''Math''))"
    using subject_metrics_row [of "[skew_example]" 0 "[''Math'']" "''Math''" None]
    by (auto simp: skew_example_numeric)
  then have "(case subject_metrics None 0 [''Math''] [skew_example] of
      Inl e \<Rightarrow> None
    | Inr tbl \<Rightarrow> map_option Skew (map_of tbl ''Math'')) = Some (Some (- (15 / 16)))"
    by (simp add: skew_example_marks describe_def skew_example_skew)
  moreover have "third_standardized_moment [47, 49, 51, 51, 52] \<noteq> - (15 / 16)"
    using sqrt_5_not by (simp add: skew_example_moment field_simps)
  ultimately show ?thesis by simp
qed

lemma valid_replicate: "valid (replicate n (Some c)) = replicate n c"
  by (induction n) (simp_all add: valid_def)

lemma sum_list_replicate_real: "sum_list (replicate n (c::real)) = real n * c"
  by (induction n) (simp_all add: algebra_simps)

lemma sq_dev_replicate: "sq_dev (replicate n c) = 0"
proof (cases "n = 0")
  case True
  then show ?thesis by (simp add: sq_dev_def)
next
  case False
  then have "sum_list (replicate n c) / real n = c" by (simp add: sum_list_replicate_real)
  then show ?thesis by (simp add: sq_dev_def map_replicate_const sum_list_replicate_real)
qed

section \<open>Properties of the cleaning stage and of the statistics of a cleaned table\<close>

lemma not_object_clean_col: "\<not> is_object (clean_col parse col)"
proof (cases col)
  case (Float64 xs)
  then show ?thesis by (cases "nanmean xs") (simp_all add: clean_col_def)
next
  case (Int64 ns)
  then show ?thesis by (simp add: clean_col_def)
next
  case (Object ss)
  then show ?thesis
    by (cases "nanmean (map (\<lambda>x. Option.bind x parse) ss)") (simp_all add: clean_col_def)
qed

lemma getitem_column:
  assumes "s \<in> set (columns f)"
  shows "\<exists>col. getitem f s = Inr col"
proof -
  obtain col where "map_of (data f) s = Some col"
    using assms by (metis columns_def map_of_eq_None_iff not_Some_eq set_map)
  then show ?thesis by (simp add: getitem_def)
qed

lemma numeric_subjects_cleaned:
  assumes "wf_frame f" and "set ss \<subseteq> set (columns f)"
  shows "numeric_subjects (cleaned parse ss f) ss"
proof -
  have "case getitem (cleaned parse ss f) s of Inl e \<Rightarrow> False | Inr c \<Rightarrow> \<not> is_object c"
    if s: "s \<in> set ss" for s
  proof -
    obtain col where "getitem f s = Inr col" using getitem_column [of s f] s assms(2) by auto
    then show ?thesis
      using getitem_cleaned [OF assms(1) s, of col parse] by (simp add: not_object_clean_col)
  qed
  then show ?thesis by (simp add: numeric_subjects_def list_all_iff)
qed

lemma get_subject_columns_subset: "set (get_subject_columns f) \<subseteq> set (columns f)"
  by (auto simp: get_subject_columns_def)

lemma example_raw_facts:
  "wf_frame example_raw" "get_subject_columns example_raw = [''Math'', ''Sci'']"
  by (simp_all add: example_raw_def wf_frame_def columns_def get_subject_columns_def
      non_subjects_def)

lemma clean_data_subjects:
  assumes "df0 < length st" and "wf_frame (st ! df0)"
  shows "clean_data parse df0 (get_subject_columns (st ! df0)) st =
           (Inr (length st), st @ [cleaned parse (get_subject_columns (st ! df0)) (st ! df0)])"
  by (rule clean_data_frame [OF assms get_subject_columns_subset])

text \<open>
  C7, as the code has it. The program has no schema check. \<open>run_pipeline\<close> loads the
  table, calls \<open>get_subject_columns\<close> and hands the result to \<open>clean_data\<close>, with only a
  \<open>print\<close> between the two calls. For every well-formed table, whether or not the columns
  StudentID, Name, Class and Section are in it, \<open>get_subject_columns\<close> returns every
  column with another name, and the cleaning stage runs on them and returns the cleaned
  copy, in which every subject column is numeric.
\<close>

theorem no_schema_check:
  assumes "df0 < length st" and "wf_frame (st ! df0)"
  shows "get_subject_columns (st ! df0) =
           filter (\<lambda>c. c \<notin> {''StudentID'', ''Name'', ''Class'', ''Section''}) (columns (st ! df0)) \<and>
         clean_data parse df0 (get_subject_columns (st ! df0)) st =
           (Inr (length st), st @ [cleaned parse (get_subject_columns (st ! df0)) (st ! df0)]) \<and>
         numeric_subjects (cleaned parse (get_subject_columns (st ! df0)) (st ! df0))
           (get_subject_columns (st ! df0))"
proof -
  have "get_subject_columns (st ! df0) =
      filter (\<lambda>c. c \<notin> {''StudentID'', ''Name'', ''Class'', ''Section''}) (columns (st ! df0))"
    by (simp add: get_subject_columns_def non_subjects_def)
  moreover have "numeric_subjects (cleaned parse (get_subject_columns (st ! df0)) (st ! df0))
      (get_subject_columns (st ! df0))"
    by (rule numeric_subjects_cleaned [OF assms(2) get_subject_columns_subset])
  ultimately show ?thesis
    using clean_data_subjects [OF assms, of parse] by simp
qed

lemma example_raw_cleaned:
  "getitem (cleaned parse_decimal [''Math'', ''Sci''] example_raw) ''Math'' =
     Inr (Float64 [Some 90, Some 60, Some 75])"
  by (simp add: cleaned_def example_raw_def object_columns_def map_col_def setitem_def
      getitem_def clean_col_def nanmean_def valid_def strip_def isspace_def astype_str_def
      parse_decimal_def parse_unsigned_def digit_def)

theorem no_schema_check_witness:
  "0 < length [example_raw] \<and> wf_frame ([example_raw] ! 0) \<and>
   ''Name'' \<notin> set (columns example_raw) \<and>
   get_subject_columns example_raw = [''Math'', ''Sci''] \<and>
   clean_data parse_decimal 0 [''Math'', ''Sci''] [example_raw] =
     (Inr 1, [example_raw, cleaned parse_decimal [''Math'', ''Sci''] example_raw]) \<and>
   getitem (cleaned parse_decimal [''Math'', ''Sci''] example_raw) ''Math'' =
     Inr (Float64 [Some 90, Some 60, Some 75])"
proof -
  have h: "0 < length [example_raw]" "wf_frame ([example_raw] ! 0)"
    by (simp_all add: example_raw_facts)
  have n: "''Name'' \<notin> set (columns example_raw)"
    by (simp add: example_raw_def columns_def)
  have g: "get_subject_columns example_raw = [''Math'', ''Sci'']"
    by (rule example_raw_facts)
  have "clean_data parse_decimal 0 (get_subject_columns ([example_raw] ! 0)) [example_raw] =
      (Inr (length [example_raw]),
       [example_raw] @
         [cleaned parse_decimal (get_subject_columns ([example_raw] ! 0)) ([example_raw] ! 0)])"
    using no_schema_check [OF h, of parse_decimal] by blast
  then have "clean_data parse_decimal 0 [''Math'', ''Sci''] [example_raw] =
      (Inr 1, [example_raw, cleaned parse_decimal [''Math'', ''Sci''] example_raw])"
    by (simp add: g)
  then show ?thesis using h n g example_raw_cleaned by blast
qed

text \<open>
  C7, as the claim states it, fails on the table of the specification's example, which has
  no Name, Class or Section column: no error is raised before the cleaning stage, which
  runs and returns the table with the Math marks 90, 60 and 75.
\<close>

theorem missing_identifiers_not_rejected:
  "''Name'' \<notin> set (columns example_raw) \<and> ''Class'' \<notin> set (columns example_raw) \<and>
   ''Section'' \<notin> set (columns example_raw) \<and>
   (case clean_data parse_decimal 0 (get_subject_columns example_raw) [example_raw] of
      (Inl e, st') \<Rightarrow> None
    | (Inr df, st') \<Rightarrow> Some (getitem (st' ! df) ''Math''))
     = Some (Inr (Float64 [Some 90, Some 60, Some 75]))"
proof -
  have "clean_data parse_decimal 0 (get_subject_columns example_raw) [example_raw] =
      (Inr 1, [example_raw, cleaned parse_decimal [''Math'', ''Sci''] example_raw])"
    using clean_data_subjects [of 0 "[example_raw]" parse_decimal]
    by (simp add: example_raw_facts)
  then show ?thesis
    by (simp add: example_raw_cleaned) (simp add: example_raw_def columns_def)
qed

lemma impute_all_None:
  assumes "\<forall>x \<in> set xs. x = None"
  shows "impute xs = replicate (length xs) None"
proof -
  have "valid xs = []" using assms by (simp add: valid_Nil_iff)
  then have "nanmean xs = None" by (simp add: nanmean_def)
  then have "impute xs = xs" by (rule impute_no_valid)
  moreover have "xs = replicate (length xs) None"
    using assms by (simp add: replicate_length_same)
  ultimately show ?thesis by simp
qed

lemma describe_all_None:
  "describe z (replicate n None) =
     \<lparr>Mean = None, Std = None, Min_stat = None, Max_stat = None, Skew = None\<rparr>"
proof -
  have "valid (replicate n None) = []" by (simp add: valid_Nil_iff)
  then show ?thesis
    by (simp add: describe_def nanmean_def nanstd_def nanmin_def nanmax_def nanskew_def)
qed

lemma marks_of_cleaned:
  assumes "wf_frame f" and "s \<in> set ss" and "getitem f s = Inr col"
  shows "marks_of (cleaned parse ss f) s = impute (coerce parse col)"
  unfolding marks_of_def getitem_cleaned [OF assms]
  by (simp only: sum.case clean_col_floats)

text \<open>
  C6, as the code has it. The program has no data-quality check. When no cell of a subject
  column is a number, the cleaning stage raises no error: the mean of the column is NaN,
  filling with NaN changes nothing, and the cleaned column is NaN in every row.
  \<open>student_metrics\<close> and \<open>subject_metrics\<close> take the cleaned table without an error, and
  the five statistics of that subject are NaN.
\<close>

theorem all_missing_column_propagates:
  assumes "df0 < length st" and "wf_frame (st ! df0)"
    and "s \<in> set (get_subject_columns (st ! df0))"
    and "getitem (st ! df0) s = Inr col" and "\<forall>x \<in> set (coerce parse col). x = None"
  shows "\<exists>st' col' st'' tbl.
           clean_data parse df0 (get_subject_columns (st ! df0)) st = (Inr (length st), st') \<and>
           getitem (st' ! length st) s = Inr col' \<and>
           floats col' = Inr (replicate (col_len col) None) \<and>
           student_metrics (length st) (get_subject_columns (st ! df0)) st' =
             (Inr (length st'), st'') \<and>
           subject_metrics z (length st) (get_subject_columns (st ! df0)) st' = Inr tbl \<and>
           map_of tbl s =
             Some \<lparr>Mean = None, Std = None, Min_stat = None, Max_stat = None, Skew = None\<rparr>"
proof -
  define ss where "ss = get_subject_columns (st ! df0)"
  define c where "c = cleaned parse ss (st ! df0)"
  have s: "s \<in> set ss" using assms(3) by (simp add: ss_def)
  have 1: "clean_data parse df0 ss st = (Inr (length st), st @ [c])"
    unfolding ss_def c_def by (rule clean_data_subjects [OF assms(1,2)])
  have nc: "numeric_subjects ((st @ [c]) ! length st) ss"
    unfolding c_def ss_def
    using numeric_subjects_cleaned [OF assms(2) get_subject_columns_subset, of parse] by simp
  have l: "length (coerce parse col) = col_len col"
    by (cases col) (simp_all add: coerce_def)
  have i: "impute (coerce parse col) = replicate (col_len col) None"
    using impute_all_None [OF assms(5)] by (simp add: l)
  have g: "getitem ((st @ [c]) ! length st) s = Inr (clean_col parse (str_strip col))"
    unfolding c_def using getitem_cleaned [OF assms(2) s assms(4), of parse] by simp
  have f: "floats (clean_col parse (str_strip col)) = Inr (replicate (col_len col) None)"
    by (simp only: clean_col_floats i)
  have 2: "student_metrics (length st) ss (st @ [c]) =
      (Inr (length (st @ [c])), (st @ [c]) @ [with_metrics ((st @ [c]) ! length st) ss])"
    by (rule student_metrics_frame [OF _ nc]) simp
  have m: "marks_of ((st @ [c]) ! length st) s = replicate (col_len col) None"
    using marks_of_cleaned [OF assms(2) s assms(4), of parse] by (simp add: c_def i)
  obtain tbl where 3: "subject_metrics z (length st) ss (st @ [c]) = Inr tbl"
    "map_of tbl s = Some (describe z (marks_of ((st @ [c]) ! length st) s))"
    using subject_metrics_row [OF nc s, of z] by blast
  have "map_of tbl s =
      Some \<lparr>Mean = None, Std = None, Min_stat = None, Max_stat = None, Skew = None\<rparr>"
    unfolding 3(2) m by (simp only: describe_all_None)
  then show ?thesis
    using 1 g f 2 3(1) unfolding ss_def by blast
qed

lemma bad_column_example_facts:
  "wf_frame bad_column_example" "get_subject_columns bad_column_example = [''Math'', ''Sci'']"
  "getitem bad_column_example ''Math'' = Inr (Object [Some ''bad'', Some ''worse''])"
  "coerce parse_decimal (Object [Some ''bad'', Some ''worse'']) = [None, None]"
     apply (simp_all add: bad_column_example_def wf_frame_def columns_def get_subject_columns_def
      non_subjects_def getitem_def)
  apply (simp add: coerce_def strip_def isspace_def astype_str_def
      parse_decimal_def parse_unsigned_def digit_def)
  done

theorem all_missing_column_propagates_witness:
  "0 < length [bad_column_example] \<and> wf_frame ([bad_column_example] ! 0) \<and>
   ''Math'' \<in> set (get_subject_columns ([bad_column_example] ! 0)) \<and>
   getitem ([bad_column_example] ! 0) ''Math'' = Inr (Object [Some ''bad'', Some ''worse'']) \<and>
   coerce parse_decimal (Object [Some ''bad'', Some ''worse'']) = [None, None] \<and>
   (\<exists>st' col' st'' tbl.
      clean_data parse_decimal 0 [''Math'', ''Sci''] [bad_column_example] = (Inr 1, st') \<and>
      getitem (st' ! 1) ''Math'' = Inr col' \<and> floats col' = Inr [None, None] \<and>
      student_metrics 1 [''Math'', ''Sci''] st' = (Inr (length st'), st'') \<and>
      subject_metrics None 1 [''Math'', ''Sci''] st' = Inr tbl \<and>
      map_of tbl ''Math'' =
        Some \<lparr>Mean = None, Std = None, Min_stat = None, Max_stat = None, Skew = None\<rparr>)"
proof -
  have h: "0 < length [bad_column_example]" "wf_frame ([bad_column_example] ! 0)"
    "''Math'' \<in> set (get_subject_columns ([bad_column_example] ! 0))"
    "getitem ([bad_column_example] ! 0) ''Math'' = Inr (Object [Some ''bad'', Some ''worse''])"
    "\<forall>x \<in> set (coerce parse_decimal (Object [Some ''bad'', Some ''worse''])). x = None"
    by (simp_all add: bad_column_example_facts)
  have "\<exists>st' col' st'' tbl.
      clean_data parse_decimal 0 [''Math'', ''Sci''] [bad_column_example] = (Inr 1, st') \<and>
      getitem (st' ! 1) ''Math'' = Inr col' \<and> floats col' = Inr [None, None] \<and>
      student_metrics 1 [''Math'', ''Sci''] st' = (Inr (length st'), st'') \<and>
      subject_metrics None 1 [''Math'', ''Sci''] st' = Inr tbl \<and>
      map_of tbl ''Math'' =
        Some \<lparr>Mean = None, Std = None, Min_stat = None, Max_stat = None, Skew = None\<rparr>"
    using all_missing_column_propagates [OF h, of None]
    by (simp add: numeral_2_eq_2 bad_column_example_facts)
  then show ?thesis using h(1-4) bad_column_example_facts(4) by blast
qed

text \<open>
  C6, as the claim states it, fails on a table whose Math column holds the texts bad and
  worse: the cleaning stage returns the table with a Math column that is NaN in both rows
  and raises no error, and the Mean of Math in the statistics of the cleaned table is NaN.
\<close>

theorem all_missing_column_no_error:
  "coerce parse_decimal (Object [Some ''bad'', Some ''worse'']) = [None, None] \<and>
   getitem bad_column_example ''Math'' = Inr (Object [Some ''bad'', Some ''worse'']) \<and>
   (case clean_data parse_decimal 0 (get_subject_columns bad_column_example) [bad_column_example] of
      (Inl e, st') \<Rightarrow> None
    | (Inr df, st') \<Rightarrow>
        (case subject_metrics None df (get_subject_columns bad_column_example) st' of
           Inl e \<Rightarrow> None
         | Inr tbl \<Rightarrow> Some (marks_of (st' ! df) ''Math'', map_option Mean (map_of tbl ''Math''))))
     = Some ([None, None], Some None)"
proof -
  let ?c = "cleaned parse_decimal [''Math'', ''Sci''] bad_column_example"
  have 1: "clean_data parse_decimal 0 (get_subject_columns bad_column_example) [bad_column_example] =
      (Inr 1, [bad_column_example, ?c])"
    using clean_data_subjects [of 0 "[bad_column_example]" parse_decimal]
    by (simp add: bad_column_example_facts)
  have nc: "numeric_subjects ([bad_column_example, ?c] ! 1) [''Math'', ''Sci'']"
    using numeric_subjects_cleaned [OF bad_column_example_facts(1) get_subject_columns_subset,
        of parse_decimal]
    by (simp add: bad_column_example_facts)
  have "impute (coerce parse_decimal (Object [Some ''bad'', Some ''worse''])) = replicate 2 None"
    using impute_all_None [of "coerce parse_decimal (Object [Some ''bad'', Some ''worse''])"]
    by (simp add: bad_column_example_facts(4) numeral_2_eq_2)
  then have m: "marks_of ?c ''Math'' = replicate 2 None"
    using marks_of_cleaned [OF bad_column_example_facts(1) _ bad_column_example_facts(3),
        of "[''Math'', ''Sci'']" parse_decimal]
    by simp
  obtain tbl where 2: "subject_metrics None 1 [''Math'', ''Sci''] [bad_column_example, ?c] = Inr tbl"
    "map_of tbl ''Math'' = Some (describe None (marks_of ([bad_column_example, ?c] ! 1) ''Math''))"
    using subject_metrics_row [OF nc, of "''Math''" None] by auto
  have "map_of tbl ''Math'' = Some (describe None (replicate 2 None))"
    using 2(2) m by simp
  then have "map_option Mean (map_of tbl ''Math'') = Some None"
    by (simp only: describe_all_None) simp
  then show ?thesis
    using 1 2(1) m by (simp add: bad_column_example_facts numeral_2_eq_2)
qed

lemma fold_min_replicate: "fold min (replicate n c) (c::real) = c"
  by (induction n) simp_all

lemma fold_max_replicate: "fold max (replicate n c) (c::real) = c"
  by (induction n) simp_all

lemma describe_constant:
  assumes "0 < n"
  shows "describe z (replicate n (Some c)) =
     \<lparr>Mean = Some c, Std = Some 0, Min_stat = Some c, Max_stat = Some c,
      Skew = (if n < 3 then None else z)\<rparr>"
proof -
  obtain m where n: "n = Suc m" using assms by (cases n) auto
  have v: "valid (replicate n (Some c)) = replicate n c" by (rule valid_replicate)
  have "nanmean (replicate n (Some c)) = Some c"
    using assms by (simp add: nanmean_def v sum_list_replicate_real)
  moreover have "nanstd 0 (replicate n (Some c)) = Some 0"
    using assms by (simp add: nanstd_def v sq_dev_replicate)
  moreover have "nanmin (replicate n (Some c)) = Some c" "nanmax (replicate n (Some c)) = Some c"
    unfolding nanmin_def nanmax_def v
    by (simp_all add: n fold_min_replicate fold_max_replicate del: fold_replicate)
  moreover have "nanskew z (replicate n (Some c)) = (if n < 3 then None else z)"
    by (simp add: nanskew_def v sq_dev_replicate)
  ultimately show ?thesis by (simp add: describe_def)
qed

text \<open>
  C9, as the code has it. \<open>subject_metrics\<close> has no fallback of its own: it stores what
  \<open>std(ddof=0)\<close> and \<open>skew()\<close> of pandas return. For a subject of a clean table in which
  all students, at least one, have the same whole-number mark (whole numbers whose sum
  float64 holds exactly, so that the arithmetic of the code is exact), no error is raised,
  Mean, Min and Max are that mark and Std is 0. Skew is NaN when there are fewer than
  three students; with three or more it is the value that the library returns at zero
  variance.
\<close>

theorem constant_column_stats:
  assumes "df < length st" and "wf_frame (st ! df)"
    and "numeric_subjects (st ! df) subjects" and "s \<in> set subjects"
    and "marks_of (st ! df) s = replicate n (Some (real_of_int k))" and "0 < n"
    and "\<bar>k\<bar> * int n < 2 ^ 53"
  shows "\<exists>tbl. subject_metrics z df subjects st = Inr tbl \<and>
           map_of tbl s =
             Some \<lparr>Mean = Some (real_of_int k), Std = Some 0, Min_stat = Some (real_of_int k),
                   Max_stat = Some (real_of_int k), Skew = (if n < 3 then None else z)\<rparr>"
proof -
  obtain tbl where t: "subject_metrics z df subjects st = Inr tbl"
    "map_of tbl s = Some (describe z (marks_of (st ! df) s))"
    using subject_metrics_row [OF assms(3,4), of z] by blast
  have "map_of tbl s = Some (describe z (replicate n (Some (real_of_int k))))"
    using t(2) by (simp only: assms(5))
  then show ?thesis
    using t(1) by (simp only: describe_constant [OF assms(6)]) blast
qed

lemma constant_example_facts:
  "wf_frame constant_example" "numeric_subjects constant_example [''Math'']"
  "marks_of constant_example ''Math'' = replicate 4 (Some (real_of_int 50))"
  by (simp_all add: constant_example_def wf_frame_def columns_def numeric_subjects_def
      marks_of_def getitem_def numeral_eq_Suc)

theorem constant_column_stats_witness:
  "0 < length [constant_example] \<and> wf_frame ([constant_example] ! 0) \<and>
   numeric_subjects ([constant_example] ! 0) [''Math''] \<and> ''Math'' \<in> set [''Math''] \<and>
   marks_of ([constant_example] ! 0) ''Math'' = replicate 4 (Some (real_of_int 50)) \<and>
   (0::nat) < 4 \<and> \<bar>50\<bar> * int 4 < 2 ^ 53 \<and>
   (\<exists>tbl. subject_metrics None 0 [''Math''] [constant_example] = Inr tbl \<and>
      map_of tbl ''Math'' =
        Some \<lparr>Mean = Some 50, Std = Some 0, Min_stat = Some 50, Max_stat = Some 50,
              Skew = None\<rparr>)"
proof -
  have h: "0 < length [constant_example]" "wf_frame ([constant_example] ! 0)"
    "numeric_subjects ([constant_example] ! 0) [''Math'']" "''Math'' \<in> set [''Math'']"
    "marks_of ([constant_example] ! 0) ''Math'' = replicate 4 (Some (real_of_int 50))"
    "(0::nat) < 4" "\<bar>50\<bar> * int 4 < 2 ^ 53"
    by (simp_all add: constant_example_facts)
  show ?thesis
    using h constant_column_stats [OF h, of None] by simp
qed

lemma two_students_example_facts:
  "numeric_subjects two_students_example [''Math'']"
  "marks_of two_students_example ''Math'' = replicate 2 (Some 50)"
  by (simp_all add: two_students_example_def numeric_subjects_def marks_of_def getitem_def
      numeral_eq_Suc)

text \<open>
  C9, as the claim states it, fails for a subject with two students who have the same
  mark: Std is 0 and Skew is NaN, which is what pandas gives for fewer than three values,
  also in a release that returns 0 at zero variance.
\<close>

theorem two_equal_marks_skew_nan:
  "(case subject_metrics (Some 0) 0 [''Math''] [two_students_example] of
      Inl e \<Rightarrow> None
    | Inr tbl \<Rightarrow> map_option (\<lambda>row. (Std row, Skew row)) (map_of tbl ''Math''))
     = Some (Some 0, None)"
proof -
  obtain tbl where "subject_metrics (Some 0) 0 [''Math''] [two_students_example] = Inr tbl"
    "map_of tbl ''Math'' = Some (describe (Some 0) (marks_of ([two_students_example] ! 0) ''Math''))"
    using subject_metrics_row [of "[two_students_example]" 0 "[''Math'']" "''Math''" "Some 0"]
    by (auto simp: two_students_example_facts)
  then show ?thesis
    by (simp add: two_students_example_facts describe_constant)
qed

section \<open>Properties of the top and bottom selection\<close>

lemma sort_values_head_float:
  assumes "getitem f key = Inr (Float64 items)"
  shows "sort_values_head argsort f key asc n =
           Inr (take_rows f (head n (nargsort argsort asc items)))"
  using assms by (simp add: sort_values_head_def)

lemma get_top_bottom_students_float:
  assumes "getitem (st ! df) ''Average'' = Inr (Float64 items)"
  shows "get_top_bottom_students argsort df n st =
           Inr (take_rows (st ! df) (head n (nargsort argsort False items)),
                take_rows (st ! df) (head n (nargsort argsort True items)))"
  by (simp add: get_top_bottom_students_def sort_values_head_float [OF assms])

lemma filter_not_None: "filter (\<lambda>x. \<not> isna x) xs = map Some (valid xs)"
  by (induction xs) (auto simp: valid_def isna_def)

lemma non_nan_values:
  "map (\<lambda>i. items ! i) (filter (\<lambda>i. \<not> isna (items ! i)) [0..<length items]) = map Some (valid items)"
proof -
  have "map (\<lambda>i. items ! i) (filter ((\<lambda>x. \<not> isna x) \<circ> (\<lambda>i. items ! i)) [0..<length items]) =
      filter (\<lambda>x. \<not> isna x) (map (\<lambda>i. items ! i) [0..<length items])"
    by (simp only: filter_map)
  then show ?thesis by (simp add: map_nth filter_not_None comp_def)
qed

lemma kernel_members:
  assumes "sorts_values argsort v" and "k \<in> set (argsort v)"
  shows "k < length v"
proof -
  have "set (argsort v) = set [0..<length v]"
    using assms(1) by (metis sorts_values_def set_mset_mset)
  then show ?thesis using assms(2) by simp
qed

lemma kernel_mset_map:
  assumes "sorts_values argsort v" and "length nn = length v"
  shows "mset (map (\<lambda>k. nn ! k) (argsort v)) = mset nn"
proof -
  have "mset (map (\<lambda>k. nn ! k) (argsort v)) = image_mset (\<lambda>k. nn ! k) (mset (argsort v))"
    by simp
  also have "\<dots> = image_mset (\<lambda>k. nn ! k) (mset [0..<length nn])"
    using assms by (simp add: sorts_values_def)
  also have "\<dots> = mset (map (\<lambda>k. nn ! k) [0..<length nn])" by simp
  also have "\<dots> = mset nn" by (simp add: map_nth)
  finally show ?thesis .
qed

lemma kernel_values:
  assumes "sorts_values argsort v" and "map (\<lambda>i. items ! i) nn = map Some v"
  shows "map (\<lambda>i. items ! i) (map (\<lambda>k. nn ! k) (argsort v)) =
           map Some (map (\<lambda>k. v ! k) (argsort v))"
proof -
  have l: "length nn = length v" using assms(2) by (metis length_map)
  have "items ! (nn ! k) = Some (v ! k)" if "k \<in> set (argsort v)" for k
  proof -
    have k: "k < length v" using kernel_members [OF assms(1) that] .
    then have "map (\<lambda>i. items ! i) nn ! k = map Some v ! k" using assms(2) by simp
    then show ?thesis using k l by simp
  qed
  then show ?thesis by simp
qed

lemma asc_sorted_Some: "sorted xs \<Longrightarrow> sorted_wrt asc_order (map Some xs)"
  by (induction xs) auto

lemma desc_sorted_Some: "sorted xs \<Longrightarrow> sorted_wrt desc_order (map Some (rev xs))"
  by (induction xs) (auto simp: sorted_wrt_append)

lemma nan_values:
  "map (\<lambda>i. items ! i) (filter (\<lambda>i. isna (items ! i)) idx) =
     replicate (length (filter (\<lambda>i. isna (items ! i)) idx)) None"
  by (induction idx) (auto simp: isna_def)

lemma sorted_wrt_replicate_None: "ord None None \<Longrightarrow> sorted_wrt ord (replicate n None)"
  by (induction n) auto

lemma sorted_wrt_nan_last:
  assumes "sorted_wrt ord (map Some xs)" and "\<And>x. ord (Some x) None" and "ord None None"
  shows "sorted_wrt ord (map Some xs @ replicate n None)"
  using assms by (auto simp: sorted_wrt_append sorted_wrt_replicate_None)

lemma mset_positions:
  "mset (filter (\<lambda>i. \<not> isna (items ! i)) idx) + mset (filter (\<lambda>i. isna (items ! i)) idx) = mset idx"
  by (induction idx) auto

lemma nargsort_perm_asc:
  assumes "sorts_values argsort (valid items)"
  shows "mset (nargsort argsort True items) = mset [0..<length items]"
proof -
  let ?nn = "filter (\<lambda>i. \<not> isna (items ! i)) [0..<length items]"
  have l: "length ?nn = length (valid items)"
    using non_nan_values [of items] by (metis length_map)
  have "mset (map (\<lambda>k. ?nn ! k) (argsort (valid items))) = mset ?nn"
    by (rule kernel_mset_map [OF assms l])
  then show ?thesis
    using mset_positions [of items "[0..<length items]"] by (simp add: nargsort_def Let_def)
qed

lemma nargsort_perm_desc:
  assumes "sorts_values argsort (rev (valid items))"
  shows "mset (nargsort argsort False items) = mset [0..<length items]"
proof -
  let ?nn = "filter (\<lambda>i. \<not> isna (items ! i)) [0..<length items]"
  have l: "length ?nn = length (valid items)"
    using non_nan_values [of items] by (metis length_map)
  have "mset (map (\<lambda>k. rev ?nn ! k) (argsort (rev (valid items)))) = mset (rev ?nn)"
    by (rule kernel_mset_map [OF assms]) (simp add: l)
  then show ?thesis
    using mset_positions [of items "[0..<length items]"] by (simp add: nargsort_def Let_def)
qed

lemma nargsort_sorted_asc:
  assumes "sorts_values argsort (valid items)"
  shows "sorted_wrt asc_order (map (\<lambda>i. items ! i) (nargsort argsort True items))"
proof -
  let ?nn = "filter (\<lambda>i. \<not> isna (items ! i)) [0..<length items]"
  let ?na = "filter (\<lambda>i. isna (items ! i)) [0..<length items]"
  let ?v = "valid items"
  have e: "map (\<lambda>i. items ! i) (map (\<lambda>k. ?nn ! k) (argsort ?v)) =
      map Some (map (\<lambda>k. ?v ! k) (argsort ?v))"
    by (rule kernel_values [OF assms non_nan_values])
  have "sorted (map (\<lambda>k. ?v ! k) (argsort ?v))"
    using assms by (simp add: sorts_values_def)
  then have "sorted_wrt asc_order (map Some (map (\<lambda>k. ?v ! k) (argsort ?v)))"
    by (rule asc_sorted_Some)
  then have s: "sorted_wrt asc_order
      (map Some (map (\<lambda>k. ?v ! k) (argsort ?v)) @ replicate (length ?na) None)"
    by (rule sorted_wrt_nan_last) simp_all
  have g: "map (\<lambda>i. items ! i) (nargsort argsort True items) =
      map (\<lambda>i. items ! i) (map (\<lambda>k. ?nn ! k) (argsort ?v)) @ replicate (length ?na) None"
    unfolding nargsort_def Let_def by (simp only: if_True map_append nan_values)
  show ?thesis unfolding g e by (rule s)
qed

lemma nargsort_sorted_desc:
  assumes "sorts_values argsort (rev (valid items))"
  shows "sorted_wrt desc_order (map (\<lambda>i. items ! i) (nargsort argsort False items))"
proof -
  let ?nn = "filter (\<lambda>i. \<not> isna (items ! i)) [0..<length items]"
  let ?na = "filter (\<lambda>i. isna (items ! i)) [0..<length items]"
  let ?v = "rev (valid items)"
  have "map (\<lambda>i. items ! i) (rev ?nn) = rev (map (\<lambda>i. items ! i) ?nn)"
    by (simp only: rev_map)
  also have "\<dots> = rev (map Some (valid items))" by (simp only: non_nan_values)
  also have "\<dots> = map Some ?v" by (simp only: rev_map)
  finally have "map (\<lambda>i. items ! i) (map (\<lambda>k. rev ?nn ! k) (argsort ?v)) =
      map Some (map (\<lambda>k. ?v ! k) (argsort ?v))"
    by (rule kernel_values [OF assms])
  then have e: "map (\<lambda>i. items ! i) (rev (map (\<lambda>k. rev ?nn ! k) (argsort ?v))) =
      map Some (rev (map (\<lambda>k. ?v ! k) (argsort ?v)))"
    by (simp only: rev_map [symmetric])
  have "sorted (map (\<lambda>k. ?v ! k) (argsort ?v))"
    using assms by (simp add: sorts_values_def)
  then have "sorted_wrt desc_order (map Some (rev (map (\<lambda>k. ?v ! k) (argsort ?v))))"
    by (rule desc_sorted_Some)
  then have s: "sorted_wrt desc_order
      (map Some (rev (map (\<lambda>k. ?v ! k) (argsort ?v))) @ replicate (length ?na) None)"
    by (rule sorted_wrt_nan_last) simp_all
  have g: "map (\<lambda>i. items ! i) (nargsort argsort False items) =
      map (\<lambda>i. items ! i) (rev (map (\<lambda>k. rev ?nn ! k) (argsort ?v))) @ replicate (length ?na) None"
    unfolding nargsort_def Let_def by (simp only: if_False map_append nan_values)
  show ?thesis unfolding g e by (rule s)
qed


lemma insort_key_map:
  "insort_key f (g x) (map g ys) = map g (insort_key (\<lambda>y. f (g y)) x ys)"
  by (induction ys) simp_all

lemma sort_key_map: "sort_key f (map g xs) = map g (sort_key (\<lambda>y. f (g y)) xs)"
  by (induction xs) (simp_all add: insort_key_map)

lemma insort_key_cong_on:
  assumes "f x = g x" and "\<forall>y \<in> set ys. f y = g y"
  shows "insort_key f x ys = insort_key g x ys"
  using assms by (induction ys) simp_all

lemma sort_key_cong_on:
  assumes "\<forall>x \<in> set xs. f x = g x"
  shows "sort_key f xs = sort_key g xs"
  using assms
proof (induction xs)
  case Nil
  then show ?case by simp
next
  case (Cons x xs)
  then have "sort_key f xs = sort_key g xs" by simp
  moreover have "insort_key f x (sort_key g xs) = insort_key g x (sort_key g xs)"
    using Cons.prems by (intro insort_key_cong_on) simp_all
  ultimately show ?case by simp
qed

lemma sorted_map_uminus_rev:
  fixes f :: "'a \<Rightarrow> real"
  assumes "sorted (map f zs)"
  shows "sorted (map (\<lambda>x. - f x) (rev zs))"
proof -
  have "sorted_wrt (\<lambda>a b. f a \<le> f b) zs" using assms by (simp add: sorted_map)
  then have "sorted_wrt (\<lambda>a b. - f b \<le> - f a) zs" by simp
  then have "sorted_wrt (\<lambda>a b. - f a \<le> - f b) (rev zs)" by (simp add: sorted_wrt_rev)
  then show ?thesis by (simp add: sorted_map)
qed

lemma rev_sort_key_rev:
  fixes f :: "'a \<Rightarrow> real"
  shows "rev (sort_key f (rev xs)) = sort_key (\<lambda>x. - f x) xs"
proof (rule properties_for_sort_key [symmetric])
  show "mset (rev (sort_key f (rev xs))) = mset xs" by simp
next
  fix k
  have "filter (\<lambda>x. f x = f k) (sort_key f (rev xs)) = filter (\<lambda>x. f x = f k) (rev xs)"
    by (rule sort_key_stable)
  then have "rev (filter (\<lambda>x. f x = f k) (sort_key f (rev xs))) = filter (\<lambda>x. f x = f k) xs"
    by (simp add: rev_filter)
  then have "filter (\<lambda>x. f x = f k) (rev (sort_key f (rev xs))) = filter (\<lambda>x. f x = f k) xs"
    by (simp only: rev_filter)
  moreover have "(\<lambda>x. - f k = - f x) = (\<lambda>x. f x = f k)" by auto
  ultimately show "filter (\<lambda>x. - f k = - f x) (rev (sort_key f (rev xs))) =
      filter (\<lambda>x. - f k = - f x) xs"
    by simp
next
  show "sorted (map (\<lambda>x. - f x) (rev (sort_key f (rev xs))))"
    by (rule sorted_map_uminus_rev) simp
qed

lemma sort_key_of_non_nan:
  assumes "map (\<lambda>i. items ! i) nn = map Some v" and "k < length v"
  shows "sort_key_of True items (nn ! k) = v ! k"
proof -
  have "length nn = length v" using assms(1) by (metis length_map)
  moreover have "map (\<lambda>i. items ! i) nn ! k = map Some v ! k" using assms(1) by simp
  ultimately have "items ! (nn ! k) = Some (v ! k)" using assms(2) by simp
  then show ?thesis by (simp add: sort_key_of_def)
qed

lemma insertion_indexer:
  assumes "map (\<lambda>i. items ! i) nn = map Some v"
  shows "map (\<lambda>k. nn ! k) (insertion_argsort v) = sort_key (sort_key_of True items) nn"
proof -
  have l: "length nn = length v" using assms by (metis length_map)
  have "sort_key (\<lambda>k. v ! k) [0..<length v] =
      sort_key (\<lambda>k. sort_key_of True items (nn ! k)) [0..<length v]"
    by (rule sort_key_cong_on) (simp add: sort_key_of_non_nan [OF assms])
  then have "map (\<lambda>k. nn ! k) (insertion_argsort v) =
      map (\<lambda>k. nn ! k) (sort_key (\<lambda>k. sort_key_of True items (nn ! k)) [0..<length nn])"
    by (simp add: insertion_argsort_def l)
  also have "\<dots> = sort_key (sort_key_of True items) (map (\<lambda>k. nn ! k) [0..<length nn])"
    by (simp only: sort_key_map)
  finally show ?thesis by (simp only: map_nth)
qed

lemma sort_key_of_False: "sort_key_of False items = (\<lambda>i. - sort_key_of True items i)"
  by (rule ext) (simp add: sort_key_of_def split: option.splits)

lemma nargsort_insertion:
  "nargsort insertion_argsort asc items = stable_order asc items"
proof -
  let ?nn = "filter (\<lambda>i. \<not> isna (items ! i)) [0..<length items]"
  show ?thesis
  proof (cases asc)
    case True
    then show ?thesis
      unfolding nargsort_def Let_def stable_order_def
      by (simp only: if_True insertion_indexer [OF non_nan_values])
  next
    case False
    have "map (\<lambda>i. items ! i) (rev ?nn) = rev (map (\<lambda>i. items ! i) ?nn)"
      by (simp only: rev_map)
    also have "\<dots> = rev (map Some (valid items))" by (simp only: non_nan_values)
    also have "\<dots> = map Some (rev (valid items))" by (simp only: rev_map)
    finally have "map (\<lambda>k. rev ?nn ! k) (insertion_argsort (rev (valid items))) =
        sort_key (sort_key_of True items) (rev ?nn)"
      by (rule insertion_indexer)
    then have "rev (map (\<lambda>k. rev ?nn ! k) (insertion_argsort (rev (valid items)))) =
        sort_key (sort_key_of False items) ?nn"
      by (simp only: rev_sort_key_rev sort_key_of_False)
    then show ?thesis
      unfolding nargsort_def Let_def stable_order_def using False by (simp only: if_False)
  qed
qed

lemma nargsort_stable:
  assumes "argsort (valid items) = insertion_argsort (valid items)"
    and "argsort (rev (valid items)) = insertion_argsort (rev (valid items))"
  shows "nargsort argsort asc items = stable_order asc items"
proof -
  have "nargsort argsort asc items = nargsort insertion_argsort asc items"
    using assms by (cases asc) (simp_all add: nargsort_def Let_def)
  then show ?thesis by (simp only: nargsort_insertion)
qed

lemma insertion_argsort_kernel: "sorting_kernel insertion_argsort"
  by (simp add: sorting_kernel_def sorts_values_def insertion_argsort_def)

lemma reversing_argsort_kernel: "sorting_kernel reversing_argsort"
proof -
  have "sorted (map (\<lambda>i. v ! i) (reversing_argsort v))" for v :: "real list"
  proof -
    have "sorted (map (\<lambda>i. - (- (v ! i))) (rev (sort_key (\<lambda>i. - (v ! i)) [0..<length v])))"
      by (rule sorted_map_uminus_rev) simp
    then show ?thesis by (simp add: reversing_argsort_def)
  qed
  then show ?thesis by (simp add: sorting_kernel_def sorts_values_def reversing_argsort_def)
qed

lemma head_all:
  assumes "int (length p) \<le> n"
  shows "head n p = p"
  using assms by (simp add: head_def)

text \<open>
  When the values are all different there is only one way to sort them, so every kernel
  that sorts them returns what the stable kernel returns.
\<close>

lemma sorts_values_distinct:
  assumes "sorts_values argsort v" and "distinct v"
  shows "argsort v = insertion_argsort v"
proof -
  let ?f = "\<lambda>i. v ! i"
  let ?p = "argsort v"
  let ?q = "insertion_argsort v"
  have mp: "mset ?p = mset [0..<length v]" and sp: "sorted (map ?f ?p)"
    using assms(1) by (simp_all add: sorts_values_def)
  have mq: "mset ?q = mset [0..<length v]" and sq: "sorted (map ?f ?q)"
    by (simp_all add: insertion_argsort_def)
  have "mset (map ?f ?p) = mset (map ?f ?q)"
    using mp mq by (metis mset_map)
  then have e: "map ?f ?p = map ?f ?q"
    using sp sq by (metis properties_for_sort)
  have "set ?p = {0..<length v}" "set ?q = {0..<length v}"
    using mp mq by (metis set_mset_mset set_upt)+
  moreover have "inj_on ?f {0..<length v}"
    using assms(2) by (auto simp: inj_on_def nth_eq_iff_index_eq)
  ultimately have "inj_on ?f (set ?p \<union> set ?q)" by simp
  then show ?thesis using e by (simp only: inj_on_map_eq_map)
qed

lemma nargsort_distinct:
  assumes "sorts_values argsort (valid items)" and "sorts_values argsort (rev (valid items))"
    and "distinct (valid items)"
  shows "nargsort argsort asc items = stable_order asc items"
proof (rule nargsort_stable)
  show "argsort (valid items) = insertion_argsort (valid items)"
    by (rule sorts_values_distinct [OF assms(1,3)])
  show "argsort (rev (valid items)) = insertion_argsort (rev (valid items))"
    by (rule sorts_values_distinct [OF assms(2)]) (simp add: assms(3))
qed

text \<open>
  C5, as the code has it. The code calls \<open>sort_values\<close> with the default kind, which is not a
  stable sort. With a kernel that sorts the Averages, Top is the first \<open>N\<close> rows of an
  arrangement of all rows in which the Averages descend, and Bottom the first \<open>N\<close> rows of
  an arrangement in which they ascend (rows without an Average last in both); when the
  number of students is at most \<open>N\<close>, both hold all students. When no two students have the
  same Average, both arrangements are the stable sorts of the specification, whatever the
  kernel. The order of rows with equal Averages is the kernel's: the arrangements are the
  stable sorts where the kernel returns what the stable kernel returns.
\<close>

theorem top_bottom_selection:
  assumes "sorts_values argsort (valid items)" and "sorts_values argsort (rev (valid items))"
    and "getitem (st ! df) ''Average'' = Inr (Float64 items)"
    and "wf_frame (st ! df)"
  shows "\<exists>p q. get_top_bottom_students argsort df n st =
             Inr (take_rows (st ! df) (head n p), take_rows (st ! df) (head n q)) \<and>
           mset p = mset [0..<length items] \<and> mset q = mset [0..<length items] \<and>
           sorted_wrt desc_order (map (\<lambda>i. items ! i) p) \<and>
           sorted_wrt asc_order (map (\<lambda>i. items ! i) q) \<and>
           (int (length items) \<le> n \<longrightarrow> head n p = p \<and> head n q = q) \<and>
           (distinct (valid items) \<longrightarrow>
              p = stable_order False items \<and> q = stable_order True items) \<and>
           (argsort (valid items) = insertion_argsort (valid items) \<and>
            argsort (rev (valid items)) = insertion_argsort (rev (valid items)) \<longrightarrow>
              p = stable_order False items \<and> q = stable_order True items)"
proof -
  let ?p = "nargsort argsort False items"
  let ?q = "nargsort argsort True items"
  have 1: "get_top_bottom_students argsort df n st =
      Inr (take_rows (st ! df) (head n ?p), take_rows (st ! df) (head n ?q))"
    by (rule get_top_bottom_students_float [OF assms(3)])
  have 2: "mset ?p = mset [0..<length items]" "mset ?q = mset [0..<length items]"
    by (rule nargsort_perm_desc [OF assms(2)]) (rule nargsort_perm_asc [OF assms(1)])
  have 3: "sorted_wrt desc_order (map (\<lambda>i. items ! i) ?p)"
    by (rule nargsort_sorted_desc [OF assms(2)])
  have 4: "sorted_wrt asc_order (map (\<lambda>i. items ! i) ?q)"
    by (rule nargsort_sorted_asc [OF assms(1)])
  have "length ?p = length items" "length ?q = length items"
    using 2 by (metis length_upt mset_eq_length minus_nat.diff_0)+
  then have 5: "int (length items) \<le> n \<longrightarrow> head n ?p = ?p \<and> head n ?q = ?q"
    by (simp add: head_all)
  have 6: "distinct (valid items) \<longrightarrow>
      ?p = stable_order False items \<and> ?q = stable_order True items"
    by (simp add: nargsort_distinct [OF assms(1,2)])
  have 7: "argsort (valid items) = insertion_argsort (valid items) \<and>
      argsort (rev (valid items)) = insertion_argsort (rev (valid items)) \<longrightarrow>
      ?p = stable_order False items \<and> ?q = stable_order True items"
    by (simp add: nargsort_stable)
  show ?thesis using 1 2 3 4 5 6 7 by blast
qed

lemma isna_simps: "isna None" "\<not> isna (Some x)"
  by (simp_all add: isna_def)

lemma averages_example_order:
  "stable_order False [Some 85, Some 50, Some (175 / 2)] = [2, 0, 1]"
  "stable_order True [Some 85, Some 50, Some (175 / 2)] = [1, 0, 2]"
  by (simp_all add: stable_order_def sort_key_of_def isna_simps upt_rec)

text \<open>
  The witness takes the two best and the two weakest of the three students of the
  specification's example. Their Averages are all different, so the selections do not
  depend on the kernel: Top holds the students 3 and 1, Bottom the students 2 and 1.
\<close>

theorem top_bottom_selection_witness:
  "sorts_values insertion_argsort (valid [Some 85, Some 50, Some (175 / 2)]) \<and>
   sorts_values insertion_argsort (rev (valid [Some 85, Some 50, Some (175 / 2)])) \<and>
   getitem ([averages_example] ! 0) ''Average'' = Inr (Float64 [Some 85, Some 50, Some (175 / 2)]) \<and>
   wf_frame ([averages_example] ! 0) \<and>
   get_top_bottom_students insertion_argsort 0 2 [averages_example] =
     Inr (take_rows averages_example [2, 0], take_rows averages_example [1, 0]) \<and>
   getitem (take_rows averages_example [2, 0]) ''StudentID'' = Inr (Int64 [3, 1]) \<and>
   getitem (take_rows averages_example [1, 0]) ''StudentID'' = Inr (Int64 [2, 1])"
proof -
  have v: "valid [Some 85, Some 50, Some (175 / 2)] = [85, 50, 175 / 2]"
    by (simp add: valid_def)
  have h: "sorts_values insertion_argsort (valid [Some 85, Some 50, Some (175 / 2)])"
    "sorts_values insertion_argsort (rev (valid [Some 85, Some 50, Some (175 / 2)]))"
    "getitem ([averages_example] ! 0) ''Average'' = Inr (Float64 [Some 85, Some 50, Some (175 / 2)])"
    using insertion_argsort_kernel
    by (simp_all add: sorting_kernel_def averages_example_def getitem_def)
  have w: "wf_frame ([averages_example] ! 0)"
    by (simp add: averages_example_def wf_frame_def columns_def)
  obtain p q where r: "get_top_bottom_students insertion_argsort 0 2 [averages_example] =
      Inr (take_rows ([averages_example] ! 0) (head 2 p), take_rows ([averages_example] ! 0) (head 2 q))"
    and s: "distinct (valid [Some 85, Some 50, Some (175 / 2)]) \<longrightarrow>
        p = stable_order False [Some 85, Some 50, Some (175 / 2)] \<and>
        q = stable_order True [Some 85, Some 50, Some (175 / 2)]"
    using top_bottom_selection [OF h w, of 2] by blast
  have "p = [2, 0, 1]" "q = [1, 0, 2]"
    using s by (simp_all add: v averages_example_order)
  then have "get_top_bottom_students insertion_argsort 0 2 [averages_example] =
      Inr (take_rows averages_example [2, 0], take_rows averages_example [1, 0])"
    using r by (simp add: head_def)
  moreover have "getitem (take_rows averages_example [2, 0]) ''StudentID'' = Inr (Int64 [3, 1])"
    "getitem (take_rows averages_example [1, 0]) ''StudentID'' = Inr (Int64 [2, 1])"
    by (simp_all add: take_rows_def averages_example_def getitem_def)
  ultimately show ?thesis using h w by blast
qed

lemma tie_example_kernel:
  "reversing_argsort [90, 90, 70, 80] = [2, 3, 1, 0]"
  "reversing_argsort [80, 70, 90, 90] = [1, 0, 3, 2]"
  by (simp_all add: reversing_argsort_def upt_rec)

lemma tie_example_order:
  "nargsort reversing_argsort False [Some 80, Some 70, Some 90, Some 90] = [3, 2, 0, 1]"
  "stable_order False [Some 80, Some 70, Some 90, Some 90] = [2, 3, 0, 1]"
  by (simp_all add: nargsort_def Let_def valid_def isna_simps upt_rec tie_example_kernel
      stable_order_def sort_key_of_def)

text \<open>
  C5, as the claim states it, fails for a table of four students with the Averages 80, 70,
  90 and 90 and a kernel that sorts and returns equal values in the reverse of their
  order, which the quicksort kind allows: Top lists the students 4, 3, 1, 2, and the
  stable sort of the claim lists the students 3, 4, 1, 2.
\<close>

theorem tie_order_not_preserved:
  "sorts_values reversing_argsort (valid [Some 80, Some 70, Some 90, Some 90]) \<and>
   sorts_values reversing_argsort (rev (valid [Some 80, Some 70, Some 90, Some 90])) \<and>
   (case get_top_bottom_students reversing_argsort 0 5 [tie_example] of
      Inl e \<Rightarrow> None
    | Inr (top_df, bottom_df) \<Rightarrow> Some (getitem top_df ''StudentID''))
     = Some (Inr (Int64 [4, 3, 1, 2])) \<and>
   getitem (take_rows tie_example
       (head 5 (stable_order False [Some 80, Some 70, Some 90, Some 90]))) ''StudentID'' =
     Inr (Int64 [3, 4, 1, 2])"
proof -
  have k: "sorts_values reversing_argsort (valid [Some 80, Some 70, Some 90, Some 90])"
    "sorts_values reversing_argsort (rev (valid [Some 80, Some 70, Some 90, Some 90]))"
    using reversing_argsort_kernel by (simp_all add: sorting_kernel_def)
  have g: "getitem ([tie_example] ! 0) ''Average'' =
      Inr (Float64 [Some 80, Some 70, Some 90, Some 90])"
    by (simp add: tie_example_def getitem_def)
  have "fst (case get_top_bottom_students reversing_argsort 0 5 [tie_example] of
      Inl e \<Rightarrow> (None, None)
    | Inr (top_df, bottom_df) \<Rightarrow> (Some top_df, Some bottom_df)) =
      Some (take_rows tie_example [3, 2, 0, 1])"
    using get_top_bottom_students_float [OF g, of reversing_argsort 5]
    by (simp add: tie_example_order head_def)
  then have "(case get_top_bottom_students reversing_argsort 0 5 [tie_example] of
      Inl e \<Rightarrow> None
    | Inr (top_df, bottom_df) \<Rightarrow> Some (getitem top_df ''StudentID'')) =
      Some (getitem (take_rows tie_example [3, 2, 0, 1]) ''StudentID'')"
    by (auto split: sum.splits)
  moreover have "getitem (take_rows tie_example [3, 2, 0, 1]) ''StudentID'' =
      Inr (Int64 [4, 3, 1, 2])"
    "getitem (take_rows tie_example [2, 3, 0, 1]) ''StudentID'' = Inr (Int64 [3, 4, 1, 2])"
    by (simp_all add: take_rows_def tie_example_def getitem_def)
  ultimately show ?thesis
    using k by (simp add: tie_example_order head_def)
qed

end
